theory Spec2Isabelle
  imports Main "HOL-Library.Sublist" "HOL-Library.AList"
begin

section \<open>Strings and paths\<close>

text \<open>
  Go strings are byte strings; they are modelled as \<open>string\<close> (a list of bytes), a
  character outside ASCII being the bytes of its UTF-8 encoding.

  \<open>strings.ToLower\<close> has two branches. A string of ASCII bytes has its upper-case
  letters (65 to 90) replaced by the lower-case ones, which sets bit 5 of the byte and
  adds 32. A string with a byte outside ASCII is mapped by \<open>unicode.ToLower\<close>, whose
  case tables are not part of this repository: that branch is a parameter of the
  environment (declared below with it).
\<close>

fun toLower_char :: "char \<Rightarrow> char" where
  "toLower_char (Char b0 b1 b2 b3 b4 b5 b6 b7) =
     (let n = (of_char (Char b0 b1 b2 b3 b4 b5 b6 b7) :: nat) in
      if 65 \<le> n \<and> n \<le> 90 then Char b0 b1 b2 b3 b4 True b6 b7
      else Char b0 b1 b2 b3 b4 b5 b6 b7)"

definition isASCII :: "string \<Rightarrow> bool" where
  "isASCII s = list_all (\<lambda>c. (of_char c :: nat) < 128) s"

text \<open>
  \<open>strings.TrimSpace\<close> removes the leading and the trailing white space of Unicode
  (\<open>unicode.IsSpace\<close>): the six ASCII characters tab, line feed, vertical tab, form
  feed, carriage return and space, then U+0085, U+00A0, U+1680, U+2000 to U+200A,
  U+2028, U+2029, U+202F, U+205F and U+3000, here by their UTF-8 encodings. A byte
  sequence that is not the encoding of one of them, also an invalid one, stops the
  trimming.
\<close>

definition white_space :: "string list" where
  "white_space =
     [[CHR 0x09], [CHR 0x0A], [CHR 0x0B], [CHR 0x0C], [CHR 0x0D], [CHR 0x20],
      [CHR 0xC2, CHR 0x85], [CHR 0xC2, CHR 0xA0], [CHR 0xE1, CHR 0x9A, CHR 0x80],
      [CHR 0xE2, CHR 0x80, CHR 0x80], [CHR 0xE2, CHR 0x80, CHR 0x81], [CHR 0xE2, CHR 0x80, CHR 0x82],
      [CHR 0xE2, CHR 0x80, CHR 0x83], [CHR 0xE2, CHR 0x80, CHR 0x84], [CHR 0xE2, CHR 0x80, CHR 0x85],
      [CHR 0xE2, CHR 0x80, CHR 0x86], [CHR 0xE2, CHR 0x80, CHR 0x87], [CHR 0xE2, CHR 0x80, CHR 0x88],
      [CHR 0xE2, CHR 0x80, CHR 0x89], [CHR 0xE2, CHR 0x80, CHR 0x8A], [CHR 0xE2, CHR 0x80, CHR 0xA8],
      [CHR 0xE2, CHR 0x80, CHR 0xA9], [CHR 0xE2, CHR 0x80, CHR 0xAF], [CHR 0xE2, CHR 0x81, CHR 0x9F],
      [CHR 0xE3, CHR 0x80, CHR 0x80]]"

function trim_left :: "string list \<Rightarrow> string \<Rightarrow> string" where
  "trim_left seqs s =
     (case find (\<lambda>x. x \<noteq> [] \<and> prefix x s) seqs of
        None \<Rightarrow> s
      | Some x \<Rightarrow> trim_left seqs (drop (length x) s))"
  by pat_completeness auto
termination
  by (relation "measure (\<lambda>(seqs, s). length s)") (auto simp: find_Some_iff prefix_def)

declare trim_left.simps [simp del]

definition TrimSpace :: "string \<Rightarrow> string" where
  "TrimSpace s = rev (trim_left (map rev white_space) (rev (trim_left white_space s)))"

text \<open>\<open>fmt.Sprintf("%d", n)\<close> for an \<open>int64\<close> such as \<open>time.Now().UnixNano()\<close>.\<close>

definition digit :: "nat \<Rightarrow> char" where
  "digit d = ''0123456789'' ! d"

function show_nat :: "nat \<Rightarrow> string" where
  "show_nat n = (if n < 10 then [digit n] else show_nat (n div 10) @ [digit (n mod 10)])"
  by pat_completeness auto
termination
  by (relation "measure id") auto

declare show_nat.simps [simp del]

definition show_int :: "int \<Rightarrow> string" where
  "show_int i = (if i < 0 then CHR ''-'' # show_nat (nat (- i)) else show_nat (nat i))"

text \<open>
  A path is the list of its components below the root, as the kernel resolves it;
  relative paths are read from the root. \<open>filepath.Join\<close> joins its elements with a
  slash and cleans the result lexically: empty components and \<open>.\<close> vanish, \<open>..\<close> drops
  the component before it (and is dropped at the root).
\<close>

type_synonym path = "string list"

fun split_slash :: "string \<Rightarrow> string list" where
  "split_slash [] = [[]]"
| "split_slash (c # cs) =
     (if c = CHR ''/'' then [] # split_slash cs
      else (case split_slash cs of [] \<Rightarrow> [[c]] | w # ws \<Rightarrow> (c # w) # ws))"

definition clean_step :: "path \<Rightarrow> string \<Rightarrow> path" where
  "clean_step acc c =
     (if c = [] \<or> c = ''.'' then acc else if c = ''..'' then butlast acc else acc @ [c])"

definition Join_at :: "path \<Rightarrow> string list \<Rightarrow> path" where
  "Join_at dir elems = foldl clean_step dir (concat (map split_slash elems))"

definition filepath_Join :: "string list \<Rightarrow> path" where
  "filepath_Join elems = Join_at [] elems"

section \<open>The operating system\<close>

text \<open>
  The file system maps a path to a directory or to a regular file with its content; the
  kernel's mount table is a set of mount points; every HTTP request sent is logged.
  The type of file contents is a parameter: bytes for the snapshot cache, a state
  document for the overlay root.
\<close>

datatype 'c node = Dir | File 'c

datatype errno =
    ENOENT | EACCES | EPERM | ENOTDIR | EISDIR | EBUSY | EINVAL | EIO | ENOSPC | ENOTEMPTY

datatype os_call =
    Stat path | MkdirAll path | Remove path | RemoveAll path | WriteFile path
  | Create path | OpenAppend path | Write path | ReadFile path
  | SysMount path | SysUnmount path nat | OpenProcMounts

record request =
  url :: string
  range_from :: "nat option"

text \<open>
  A response carries the status, the \<open>Content-Length\<close>, the bytes of the body that
  arrive, and whether the body then ends with a read error (a broken connection, a
  cancelled context) instead of the end of the stream.
\<close>

datatype response = TransportError | Response nat int string bool

record 'c world =
  fs :: "path \<Rightarrow> 'c node option"
  mounts :: "path set"
  requests :: "request list"

text \<open>The metadata record of package hivesim, which the environment's JSON codec encodes.\<close>

record SnapshotMetadata =
  md_Network :: string
  md_Client :: string
  md_BlockNumber :: string
  md_BlockHash :: string
  md_Timestamp :: int
  md_LocalPath :: path

text \<open>
  The environment decides what the program cannot: which system calls fail for a
  reason outside the file system model (permissions, a busy mount, a file that cannot
  be opened), what the server answers to the n-th request, whether \<open>zstd\<close> is
  installed, what the extraction pipeline writes for an archive and whether it exits
  with success, the wall-clock time, and the JSON codec of the metadata (the block
  number and hash a body decodes to, and the bytes that encode a metadata record).
  A call that the environment fails is refused before it changes anything: it leaves
  the file system as it was. The environment also holds the lower-casing of strings
  that are not ASCII, \<open>strings.Map(unicode.ToLower, s)\<close>.
\<close>

record env =
  fault :: "os_call \<Rightarrow> errno option"
  dir_size :: nat
  url_invalid :: "string \<Rightarrow> bool"
  server :: "nat \<Rightarrow> request \<Rightarrow> response"
  zstd_installed :: bool
  untar :: "string \<Rightarrow> (path \<times> string node) list \<times> bool"
  now_rfc3339 :: string
  decode_block :: "string \<Rightarrow> bool \<Rightarrow> (string \<times> string) option"
  encode_metadata :: "SnapshotMetadata \<Rightarrow> string"
  unicode_ToLower :: "string \<Rightarrow> string"

definition ToLower :: "env \<Rightarrow> string \<Rightarrow> string" where
  "ToLower e s = (if isASCII s then map toLower_char s else unicode_ToLower e s)"

definition IsNotExist :: "errno \<Rightarrow> bool" where
  "IsNotExist er = (er = ENOENT)"

definition IsPermission :: "errno \<Rightarrow> bool" where
  "IsPermission er = (er = EACCES \<or> er = EPERM)"

definition is_dir :: "'c world \<Rightarrow> path \<Rightarrow> bool" where
  "is_dir w p = (p = [] \<or> fs w p = Some Dir)"

definition is_file :: "'c world \<Rightarrow> path \<Rightarrow> bool" where
  "is_file w p = (case fs w p of Some (File c) \<Rightarrow> True | _ \<Rightarrow> False)"

definition os_Stat :: "env \<Rightarrow> 'c world \<Rightarrow> path \<Rightarrow> errno + 'c node" where
  "os_Stat e w p =
     (case fault e (Stat p) of
        Some er \<Rightarrow> Inl er
      | None \<Rightarrow> (case fs w p of None \<Rightarrow> Inl ENOENT | Some n \<Rightarrow> Inr n))"

definition IsDir :: "'c node \<Rightarrow> bool" where
  "IsDir n = (case n of Dir \<Rightarrow> True | File c \<Rightarrow> False)"

definition Size :: "env \<Rightarrow> string node \<Rightarrow> nat" where
  "Size e n = (case n of Dir \<Rightarrow> dir_size e | File b \<Rightarrow> length b)"

definition os_MkdirAll :: "env \<Rightarrow> 'c world \<Rightarrow> path \<Rightarrow> errno option \<times> 'c world" where
  "os_MkdirAll e w p =
     (case fault e (MkdirAll p) of
        Some er \<Rightarrow> (Some er, w)
      | None \<Rightarrow>
          if \<exists>q \<in> set (prefixes p). is_file w q then (Some ENOTDIR, w)
          else (None, w\<lparr>fs := (\<lambda>q. if prefix q p \<and> fs w q = None then Some Dir else fs w q)\<rparr>))"

definition os_WriteFile :: "env \<Rightarrow> 'c world \<Rightarrow> path \<Rightarrow> 'c \<Rightarrow> errno option \<times> 'c world" where
  "os_WriteFile e w p c =
     (case fault e (WriteFile p) of
        Some er \<Rightarrow> (Some er, w)
      | None \<Rightarrow>
          if fs w p = Some Dir then (Some EISDIR, w)
          else if \<not> is_dir w (butlast p) then (Some ENOENT, w)
          else (None, w\<lparr>fs := (fs w)(p \<mapsto> File c)\<rparr>))"

definition os_Create :: "env \<Rightarrow> string world \<Rightarrow> path \<Rightarrow> errno option \<times> string world" where
  "os_Create e w p =
     (case fault e (Create p) of
        Some er \<Rightarrow> (Some er, w)
      | None \<Rightarrow>
          if fs w p = Some Dir then (Some EISDIR, w)
          else if \<not> is_dir w (butlast p) then (Some ENOENT, w)
          else (None, w\<lparr>fs := (fs w)(p \<mapsto> File [])\<rparr>))"

definition os_OpenAppend :: "env \<Rightarrow> 'c world \<Rightarrow> path \<Rightarrow> errno option" where
  "os_OpenAppend e w p =
     (case fault e (OpenAppend p) of
        Some er \<Rightarrow> Some er
      | None \<Rightarrow> (case fs w p of None \<Rightarrow> Some ENOENT | Some Dir \<Rightarrow> Some EISDIR | Some (File c) \<Rightarrow> None))"

definition os_ReadFile :: "env \<Rightarrow> 'c world \<Rightarrow> path \<Rightarrow> errno + 'c" where
  "os_ReadFile e w p =
     (case fault e (ReadFile p) of
        Some er \<Rightarrow> Inl er
      | None \<Rightarrow> (case fs w p of None \<Rightarrow> Inl ENOENT | Some Dir \<Rightarrow> Inl EISDIR | Some (File c) \<Rightarrow> Inr c))"

text \<open>
  \<open>os.Remove\<close> removes a file or an empty directory. The model does not track
  whether a directory is empty: the environment fails the call when it is not.
\<close>

definition os_Remove :: "env \<Rightarrow> 'c world \<Rightarrow> path \<Rightarrow> errno option \<times> 'c world" where
  "os_Remove e w p =
     (case fault e (Remove p) of
        Some er \<Rightarrow> (Some er, w)
      | None \<Rightarrow>
          if fs w p = None then (Some ENOENT, w)
          else if p \<in> mounts w then (Some EBUSY, w)
          else (None, w\<lparr>fs := (fs w)(p := None)\<rparr>))"

text \<open>
  \<open>os.RemoveAll\<close> removes the path and everything below it, and returns nil when the
  path does not exist. A mount point below the path is busy.
\<close>

definition os_RemoveAll :: "env \<Rightarrow> 'c world \<Rightarrow> path \<Rightarrow> errno option \<times> 'c world" where
  "os_RemoveAll e w p =
     (case fault e (RemoveAll p) of
        Some er \<Rightarrow> (Some er, w)
      | None \<Rightarrow>
          if \<exists>q \<in> mounts w. prefix p q then (Some EBUSY, w)
          else (None, w\<lparr>fs := (\<lambda>q. if prefix p q then None else fs w q)\<rparr>))"

text \<open>
  A path that is handed to the kernel as it is written, not cleaned: the components
  \<open>comps\<close> below the directory \<open>dir\<close>. The kernel walks it component by component. An
  empty component (a doubled or trailing slash) is skipped. At \<open>.\<close> and \<open>..\<close> the
  directory reached so far has to exist: the walk fails with \<open>ENOENT\<close> when it does
  not and with \<open>ENOTDIR\<close> when it is a file, where \<open>filepath.Join\<close> would drop the
  component lexically. At a name the walk goes on below it; as in the other calls of
  this model, whether the node exists shows at the end of the walk.
\<close>

fun walk :: "'c world \<Rightarrow> path \<Rightarrow> string list \<Rightarrow> errno + path" where
  "walk w cur [] = Inr cur"
| "walk w cur (c # cs) =
     (if c = [] then walk w cur cs
      else if c = ''.'' \<or> c = ''..'' then
        (if is_dir w cur then walk w (if c = ''..'' then butlast cur else cur) cs
         else if fs w cur = None then Inl ENOENT
         else Inl ENOTDIR)
      else walk w (cur @ [c]) cs)"

text \<open>
  \<open>os.RemoveAll\<close> of a path as written. A path whose text ends in \<open>/.\<close> is refused
  with \<open>EINVAL\<close>. When the kernel does not find the path (\<open>ENOENT\<close> on the way) the
  call returns nil and removes nothing; another failure of the walk is returned.
  Otherwise the call works below the parent directory on the last component that is
  left when trailing slashes are dropped: for a name, the node reached and everything
  below it is removed; for \<open>.\<close> and \<open>..\<close> the content of the directory reached is
  removed, and the final \<open>rmdir\<close> of \<open>.\<close> or \<open>..\<close> is refused by the kernel with
  \<open>EINVAL\<close> or \<open>ENOTEMPTY\<close>.
\<close>

definition os_RemoveAll_at ::
  "env \<Rightarrow> 'c world \<Rightarrow> path \<Rightarrow> string list \<Rightarrow> errno option \<times> 'c world" where
  "os_RemoveAll_at e w dir comps =
     (if comps \<noteq> [] \<and> last comps = ''.'' then (Some EINVAL, w)
      else
        (case walk w dir comps of
           Inl er \<Rightarrow> if IsNotExist er then (None, w) else (Some er, w)
         | Inr p \<Rightarrow>
             (case rev (filter (\<lambda>c. c \<noteq> []) comps) of
                [] \<Rightarrow> os_RemoveAll e w p
              | c # cs \<Rightarrow>
                  if c = ''.'' \<or> c = ''..'' then
                    (case fault e (RemoveAll p) of
                       Some er \<Rightarrow> (Some er, w)
                     | None \<Rightarrow>
                         if \<exists>q \<in> mounts w. strict_prefix p q then (Some EBUSY, w)
                         else (Some (if c = ''.'' then EINVAL else ENOTEMPTY),
                               w\<lparr>fs := (\<lambda>q. if strict_prefix p q then None else fs w q)\<rparr>))
                  else os_RemoveAll e w p)))"

definition client_Do :: "env \<Rightarrow> 'c world \<Rightarrow> request \<Rightarrow> response \<times> 'c world" where
  "client_Do e w req = (server e (length (requests w)) req, w\<lparr>requests := requests w @ [req]\<rparr>)"

section \<open>Package snapshot: the fetcher\<close>

datatype error =
    ErrOverlayNotSupported | ErrSnapshotNotFound | ErrSnapshotNotDirectory
  | ErrMountFailed | ErrUnmountFailed | ErrPermissionDenied
  | ErrOverlayExists | ErrOverlayNotFound
  | PathError errno
  | Wrapped string error
  | HTTPStatus nat
  | Msg string
  | RequestError
  | TransportErr
  | BodyReadError
  | ExitError

definition SnapshotFileName :: string where
  "SnapshotFileName = ''snapshot.tar.zst''"

record snapshot_Config =
  Network :: string
  Client :: string
  BlockNumber :: string
  BaseURL :: string
  CacheDir :: string

record Fetcher =
  cacheDir :: string
  baseURL :: string

text \<open>
  \<open>mapClientName\<close>: the name tag after the first underscore is stripped (when the
  underscore is not the first byte), and the five known client names are mapped.
\<close>

definition mapClientName :: "env \<Rightarrow> string \<Rightarrow> string" where
  "mapClientName e hiveName =
     (let baseName =
            (if CHR ''_'' \<in> set hiveName \<and> takeWhile (\<lambda>c. c \<noteq> CHR ''_'') hiveName \<noteq> []
             then takeWhile (\<lambda>c. c \<noteq> CHR ''_'') hiveName else hiveName)
      in case map_of
                [(''go-ethereum'', ''geth''), (''nethermind'', ''nethermind''), (''besu'', ''besu''),
                 (''reth'', ''reth''), (''erigon'', ''erigon'')] (ToLower e baseName) of
           Some mapped \<Rightarrow> mapped
         | None \<Rightarrow> baseName)"

text \<open>
  \<open>resolveLatestBlock\<close>: one GET of \<open>{base}/{network}/{client}/latest\<close>; the first 64
  bytes of the body, trimmed, are the block number.
\<close>

definition resolveLatestBlock ::
  "env \<Rightarrow> string world \<Rightarrow> string \<Rightarrow> string \<Rightarrow> string \<Rightarrow> (error + string) \<times> string world" where
  "resolveLatestBlock e w base network client =
     (let latestURL = base @ ''/'' @ network @ ''/'' @ client @ ''/latest'' in
      if url_invalid e latestURL then (Inl RequestError, w)
      else
        (case client_Do e w \<lparr>url = latestURL, range_from = None\<rparr> of
           (TransportError, w1) \<Rightarrow> (Inl TransportErr, w1)
         | (Response st cl body berr, w1) \<Rightarrow>
             if st \<noteq> 200 then (Inl (HTTPStatus st), w1)
             else if berr \<and> length body < 64 then (Inl BodyReadError, w1)
             else
               (let blockNumber = TrimSpace (take 64 body) in
                if blockNumber = [] then (Inl (Msg ''empty response from latest endpoint''), w1)
                else (Inr blockNumber, w1))))"

text \<open>
  \<open>io.Copy(out, body)\<close>: the bytes that arrive are written at the end of the open file;
  the copy fails when a write fails or when the body ends with a read error.
\<close>

definition io_Copy :: "env \<Rightarrow> string world \<Rightarrow> path \<Rightarrow> string \<Rightarrow> bool \<Rightarrow> error option \<times> string world" where
  "io_Copy e w p body berr =
     (case fault e (Write p) of
        Some er \<Rightarrow> (Some (PathError er), w)
      | None \<Rightarrow>
          (let w' = (case fs w p of
                       Some (File b) \<Rightarrow> w\<lparr>fs := (fs w)(p \<mapsto> File (b @ body))\<rparr>
                     | _ \<Rightarrow> w)
           in (if berr then Some BodyReadError else None, w')))"

text \<open>
  The request of \<open>downloadFile\<close>: a \<open>Range: bytes=N-\<close> header when the local file
  has N > 0 bytes, none when the file is empty or \<open>os.Stat\<close> fails.
\<close>

definition range_request :: "env \<Rightarrow> string \<Rightarrow> path \<Rightarrow> string world \<Rightarrow> request" where
  "range_request e u destPath w =
     (let existingSize = (case os_Stat e w destPath of Inr st \<Rightarrow> Size e st | Inl er \<Rightarrow> 0) in
      \<lparr>url = u, range_from = (if existingSize > 0 then Some existingSize else None)\<rparr>)"

text \<open>
  \<open>downloadFile\<close> calls itself on status 416, with no bound on the number of calls:
  it is a partial function, and \<open>None\<close> is the run that never returns.
\<close>

partial_function (option) downloadFile ::
  "env \<Rightarrow> string \<Rightarrow> path \<Rightarrow> string world \<Rightarrow> (error option \<times> string world) option" where
  "downloadFile e u destPath w =
     (if url_invalid e u then Some (Some RequestError, w)
      else
        (case client_Do e w (range_request e u destPath w) of
           (TransportError, w1) \<Rightarrow> Some (Some TransportErr, w1)
         | (Response st cl body berr, w1) \<Rightarrow>
             if st = 200 then
               (case os_Create e w1 destPath of
                  (Some er, w2) \<Rightarrow> Some (Some (PathError er), w2)
                | (None, w2) \<Rightarrow> Some (io_Copy e w2 destPath body berr))
             else if st = 206 then
               (case os_OpenAppend e w1 destPath of
                  Some er \<Rightarrow> Some (Some (PathError er), w1)
                | None \<Rightarrow> Some (io_Copy e w1 destPath body berr))
             else if st = 416 then
               downloadFile e u destPath (snd (os_Remove e w1 destPath))
             else Some (Some (HTTPStatus st), w1)))"

text \<open>
  \<open>extractTarZst\<close>: the pipeline \<open>zstd -d -c archive | tar -xf - -C destDir\<close> writes
  below \<open>destDir\<close> only; without a readable archive it writes nothing and fails.
\<close>

fun write_tree :: "path \<Rightarrow> (path \<times> 'c node) list \<Rightarrow> (path \<Rightarrow> 'c node option) \<Rightarrow> (path \<Rightarrow> 'c node option)" where
  "write_tree d [] f = f"
| "write_tree d ((r, n) # es) f = write_tree d es (if r = [] then f else f(d @ r \<mapsto> n))"

definition extractTarZst :: "env \<Rightarrow> string world \<Rightarrow> path \<Rightarrow> path \<Rightarrow> error option \<times> string world" where
  "extractTarZst e w archivePath destDir =
     (if \<not> zstd_installed e then (Some (Msg ''zstd not found: please install zstd (apt-get install zstd)''), w)
      else
        (case (case fs w archivePath of Some (File b) \<Rightarrow> untar e b | _ \<Rightarrow> ([], False)) of
           (entries, ok) \<Rightarrow>
             (if ok then None else Some ExitError, w\<lparr>fs := write_tree destDir entries (fs w)\<rparr>)))"

definition downloadSnapshot ::
  "env \<Rightarrow> string world \<Rightarrow> string \<Rightarrow> string \<Rightarrow> string \<Rightarrow> string \<Rightarrow> path \<Rightarrow> (error option \<times> string world) option" where
  "downloadSnapshot e w base network client blockNumber destDir =
     (let snapshotURL = base @ ''/'' @ network @ ''/'' @ client @ ''/'' @ blockNumber @ ''/'' @ SnapshotFileName in
      case os_MkdirAll e w destDir of
        (Some er, w1) \<Rightarrow> Some (Some (Wrapped ''failed to create snapshot directory'' (PathError er)), w1)
      | (None, w1) \<Rightarrow>
          (let archivePath = Join_at destDir [SnapshotFileName] in
           case downloadFile e snapshotURL archivePath w1 of
             None \<Rightarrow> None
           | Some (Some er, w2) \<Rightarrow>
               Some (Some (Wrapped ''failed to download snapshot (partial file preserved for resume)'' er), w2)
           | Some (None, w2) \<Rightarrow>
               (let extractedDir = Join_at destDir [''data''] in
                case os_MkdirAll e w2 extractedDir of
                  (Some er, w3) \<Rightarrow>
                    Some (Some (Wrapped ''failed to create extraction directory'' (PathError er)), w3)
                | (None, w3) \<Rightarrow>
                    (case extractTarZst e w3 archivePath extractedDir of
                       (Some er, w4) \<Rightarrow>
                         Some (Some (Wrapped ''failed to extract snapshot (archive preserved)'' er),
                               snd (os_RemoveAll e w4 extractedDir))
                     | (None, w4) \<Rightarrow>
                         (let w5 = snd (os_Remove e w4 archivePath);
                              markerPath = Join_at destDir [''.complete''];
                              w6 = snd (os_WriteFile e w5 markerPath (now_rfc3339 e))
                          in Some (None, w6))))))"

text \<open>
  The entry of the cache that \<open>EnsureSnapshot\<close> computes for a block number:
  \<open>filepath.Join(cacheDir, network, client, blockNumber)\<close> on the normalised inputs.
\<close>

definition snapshotDir_of :: "env \<Rightarrow> Fetcher \<Rightarrow> snapshot_Config \<Rightarrow> string \<Rightarrow> path" where
  "snapshotDir_of e f cfg blockNumber =
     filepath_Join
       [if CacheDir cfg = [] then cacheDir f else CacheDir cfg,
        ToLower e (Network cfg), ToLower e (mapClientName e (Client cfg)), blockNumber]"

definition baseURL_of :: "Fetcher \<Rightarrow> snapshot_Config \<Rightarrow> string" where
  "baseURL_of f cfg = (if BaseURL cfg = [] then baseURL f else BaseURL cfg)"

text \<open>
  The address that \<open>EnsureSnapshot\<close> has \<open>resolveLatestBlock\<close> ask for the block number
  \<open>latest\<close>: \<open>fmt.Sprintf("%s/%s/%s/latest", baseURL, network, client)\<close> on the
  normalised inputs.
\<close>

definition latestURL_of :: "env \<Rightarrow> Fetcher \<Rightarrow> snapshot_Config \<Rightarrow> string" where
  "latestURL_of e f cfg =
     baseURL_of f cfg @ ''/'' @ ToLower e (Network cfg) @ ''/'' @
     ToLower e (mapClientName e (Client cfg)) @ ''/latest''"

text \<open>
  The first step of \<open>EnsureSnapshot\<close>: an empty block number is \<open>latest\<close>, and
  \<open>latest\<close> is resolved by a request to the server, before the cache is looked at.
\<close>

definition resolve_block ::
  "env \<Rightarrow> Fetcher \<Rightarrow> string world \<Rightarrow> snapshot_Config \<Rightarrow> (error + string) \<times> string world" where
  "resolve_block e f w cfg =
     (let blockNumber = (if BlockNumber cfg = [] then ''latest'' else BlockNumber cfg) in
      if blockNumber = ''latest'' then
        (case resolveLatestBlock e w (baseURL_of f cfg) (ToLower e (Network cfg))
                (ToLower e (mapClientName e (Client cfg))) of
           (Inl er, w1) \<Rightarrow> (Inl (Wrapped ''failed to resolve latest block'' er), w1)
         | (Inr resolved, w1) \<Rightarrow> (Inr resolved, w1))
      else (Inr blockNumber, w))"

text \<open>
  \<open>EnsureSnapshot\<close> returns the path of the extracted directory or an error; \<open>None\<close>
  is the run in which \<open>downloadFile\<close> never returns.
\<close>

definition EnsureSnapshot ::
  "env \<Rightarrow> Fetcher \<Rightarrow> string world \<Rightarrow> snapshot_Config \<Rightarrow> ((error + path) \<times> string world) option" where
  "EnsureSnapshot e f w cfg =
     (case resolve_block e f w cfg of
        (Inl er, w1) \<Rightarrow> Some (Inl er, w1)
      | (Inr blockNumber, w1) \<Rightarrow>
          (let snapshotDir = snapshotDir_of e f cfg blockNumber;
               extractedDir = Join_at snapshotDir [''data''];
               markerPath = Join_at snapshotDir [''.complete'']
           in
           case os_Stat e w1 markerPath of
             Inr st \<Rightarrow> Some (Inr extractedDir, w1)
           | Inl er \<Rightarrow>
               (case downloadSnapshot e w1 (baseURL_of f cfg) (ToLower e (Network cfg))
                       (ToLower e (mapClientName e (Client cfg))) blockNumber snapshotDir of
                  None \<Rightarrow> None
                | Some (Some er', w2) \<Rightarrow> Some (Inl er', w2)
                | Some (None, w2) \<Rightarrow> Some (Inr extractedDir, w2))))"

section \<open>Package hivesim: the snapshot manager\<close>


definition hivesim_downloadFile ::
  "env \<Rightarrow> string \<Rightarrow> path \<Rightarrow> string world \<Rightarrow> error option \<times> string world" where
  "hivesim_downloadFile e u destPath w =
     (if url_invalid e u then (Some RequestError, w)
      else
        (case client_Do e w \<lparr>url = u, range_from = None\<rparr> of
           (TransportError, w1) \<Rightarrow> (Some TransportErr, w1)
         | (Response st cl body berr, w1) \<Rightarrow>
             if st \<noteq> 200 then (Some (HTTPStatus st), w1)
             else
               (case os_Create e w1 destPath of
                  (Some er, w2) \<Rightarrow> (Some (PathError er), w2)
                | (None, w2) \<Rightarrow> io_Copy e w2 destPath body berr)))"

text \<open>
  \<open>extractTarZst\<close> of the manager: the same pipeline as the fetcher's; when it fails,
  the fallback \<open>extractWithGoZstd\<close> only returns an error.
\<close>

definition hivesim_extractTarZst ::
  "env \<Rightarrow> string world \<Rightarrow> path \<Rightarrow> path \<Rightarrow> error option \<times> string world" where
  "hivesim_extractTarZst e w archivePath destDir =
     (case extractTarZst e w archivePath destDir of
        (None, w') \<Rightarrow> (None, w')
      | (Some er, w') \<Rightarrow>
          (Some (Msg ''extraction requires 'zstd' command to be installed; run: apt-get install zstd''),
           w'))"




section \<open>Package overlay: the manager\<close>

record Mount =
  ID :: string
  ContainerID :: string
  LowerDir :: path
  UpperDir :: path
  WorkDir :: path
  MergedDir :: path
  ContainerPath :: string
  CreatedAt :: int

record overlay_Config =
  SnapshotPath :: path
  ContainerMountPath :: string

text \<open>
  The directories that the manager is configured with or computes with
  \<open>filepath.Join\<close> (the base directory, the snapshot path, the directories of a
  mount) are held as the paths they name. The identifier of a mount is a string: it
  is the one part of a path that the code also uses as written.

  The registry \<open>map[string]*Mount\<close> is an association list with distinct keys;
  \<open>range\<close> visits it in list order (Go leaves the order open). A pointer in a
  decoded state file may be nil: an entry of a state document holds \<open>None\<close> for it.
\<close>

type_synonym registry = "(string \<times> Mount) list"

datatype state_content = Raw string | StateJSON "(string \<times> Mount option) list"

record manager =
  BaseDir :: path
  overlays :: registry

datatype 'a outcome = Ok 'a | Err error | Panic

text \<open>
  \<open>json.MarshalIndent\<close> of the registry gives the state document with every pointer
  set; \<open>json.Unmarshal\<close> into \<open>map[string]*Mount\<close> fails on bytes that are not such a
  document.
\<close>

definition json_Marshal :: "registry \<Rightarrow> state_content" where
  "json_Marshal r = StateJSON (map (\<lambda>(c, mt). (c, Some mt)) r)"

definition json_Unmarshal :: "state_content \<Rightarrow> (string \<times> Mount option) list option" where
  "json_Unmarshal c = (case c of Raw b \<Rightarrow> None | StateJSON st \<Rightarrow> Some st)"

definition statePath :: "manager \<Rightarrow> path" where
  "statePath m = Join_at (BaseDir m) [''state.json'']"

text \<open>
  The directory that \<open>CreateOverlay\<close> makes for an overlay identifier:
  \<open>filepath.Join(m.config.BaseDir, overlayID)\<close>, a cleaned path.
\<close>

definition overlayDir_of :: "path \<Rightarrow> Mount \<Rightarrow> path" where
  "overlayDir_of base mount = Join_at base [ID mount]"

subsection \<open>The platform adapter (Linux)\<close>

definition MNT_FORCE :: nat where "MNT_FORCE = 1"
definition MNT_DETACH :: nat where "MNT_DETACH = 2"

definition sys_Mount :: "env \<Rightarrow> 'c world \<Rightarrow> path \<Rightarrow> errno option \<times> 'c world" where
  "sys_Mount e w target =
     (case fault e (SysMount target) of
        Some er \<Rightarrow> (Some er, w)
      | None \<Rightarrow>
          if fs w target \<noteq> Some Dir then (Some ENOENT, w)
          else (None, w\<lparr>mounts := insert target (mounts w)\<rparr>))"

definition sys_Unmount :: "env \<Rightarrow> 'c world \<Rightarrow> path \<Rightarrow> nat \<Rightarrow> errno option \<times> 'c world" where
  "sys_Unmount e w target flags =
     (case fault e (SysUnmount target flags) of
        Some er \<Rightarrow> (Some er, w)
      | None \<Rightarrow>
          if target \<notin> mounts w then (Some EINVAL, w)
          else (None, w\<lparr>mounts := mounts w - {target}\<rparr>))"

definition mountOverlay :: "env \<Rightarrow> 'c world \<Rightarrow> Mount \<Rightarrow> error option \<times> 'c world" where
  "mountOverlay e w mount =
     (case sys_Mount e w (MergedDir mount) of
        (Some er, w') \<Rightarrow> (Some (if IsPermission er then ErrPermissionDenied else ErrMountFailed), w')
      | (None, w') \<Rightarrow> (None, w'))"

text \<open>\<open>isMounted\<close> reads \<open>/proc/mounts\<close>; when the file cannot be opened it answers false.\<close>

definition isMounted :: "env \<Rightarrow> 'c world \<Rightarrow> path \<Rightarrow> bool" where
  "isMounted e w p = (case fault e OpenProcMounts of Some er \<Rightarrow> False | None \<Rightarrow> p \<in> mounts w)"

text \<open>\<open>killProcesses\<close> runs \<open>fuser -km\<close> and returns nil whatever the command does.\<close>

definition killProcesses :: "env \<Rightarrow> path \<Rightarrow> error option" where
  "killProcesses e mountPath = None"

text \<open>
  \<open>cleanupDirs\<close> builds the directory anew as the string
  \<open>fmt.Sprintf("%s/%s", m.config.BaseDir, mount.ID)\<close> and hands it to \<open>os.RemoveAll\<close>
  as it is written: the components of the identifier, with every \<open>.\<close>, \<open>..\<close> and
  empty component that it has, below the base directory.
\<close>

definition cleanupDirs :: "env \<Rightarrow> path \<Rightarrow> 'c world \<Rightarrow> Mount \<Rightarrow> error option \<times> 'c world" where
  "cleanupDirs e base w mount =
     (case os_RemoveAll_at e w base (split_slash (ID mount)) of
        (Some er, w') \<Rightarrow> (Some (PathError er), w')
      | (None, w') \<Rightarrow> (None, w'))"

definition cleanupMount :: "env \<Rightarrow> path \<Rightarrow> 'c world \<Rightarrow> Mount \<Rightarrow> error option \<times> 'c world" where
  "cleanupMount e base w mount =
     (if \<not> isMounted e w (MergedDir mount) then cleanupDirs e base w mount
      else
        (case sys_Unmount e w (MergedDir mount) 0 of
           (None, w1) \<Rightarrow> cleanupDirs e base w1 mount
         | (Some er1, w1) \<Rightarrow>
             (case sys_Unmount e w1 (MergedDir mount) MNT_DETACH of
                (None, w2) \<Rightarrow> cleanupDirs e base w2 mount
              | (Some er2, w2) \<Rightarrow>
                  (case killProcesses e (MergedDir mount) of
                     killed \<Rightarrow>
                       (case sys_Unmount e w2 (MergedDir mount) (MNT_FORCE + MNT_DETACH) of
                          (Some er3, w3) \<Rightarrow> (Some ErrUnmountFailed, w3)
                        | (None, w3) \<Rightarrow> cleanupDirs e base w3 mount)))))"

subsection \<open>The manager's operations\<close>

text \<open>
  \<open>persistState\<close>: with an empty registry the state file is removed (the result of
  \<open>os.Remove\<close> is dropped); otherwise the registry is written. Encoding the registry
  does not fail.
\<close>

definition persistState :: "env \<Rightarrow> manager \<Rightarrow> state_content world \<Rightarrow> error option \<times> state_content world" where
  "persistState e m w =
     (if length (overlays m) = 0 then (None, snd (os_Remove e w (statePath m)))
      else
        (case os_WriteFile e w (statePath m) (json_Marshal (overlays m)) of
           (Some er, w') \<Rightarrow> (Some (Wrapped ''failed to write state file'' (PathError er)), w')
         | (None, w') \<Rightarrow> (None, w')))"

text \<open>The loop of \<open>CreateOverlay\<close> over the three directories; it stops at the first failure.\<close>

fun mkdir_each :: "env \<Rightarrow> 'c world \<Rightarrow> path list \<Rightarrow> (path \<times> errno) option \<times> 'c world" where
  "mkdir_each e w [] = (None, w)"
| "mkdir_each e w (d # ds) =
     (case os_MkdirAll e w d of
        (Some er, w') \<Rightarrow> (Some (d, er), w')
      | (None, w') \<Rightarrow> mkdir_each e w' ds)"

text \<open>
  \<open>CreateOverlay\<close>. The slice \<open>containerID[:12]\<close> panics when the identifier has fewer
  than 12 bytes. The clock is read for the identifier (\<open>unix_nano\<close>) and for
  \<open>CreatedAt\<close>. A failure of \<open>persistState\<close> is logged and dropped.
\<close>

definition CreateOverlay ::
  "env \<Rightarrow> int \<Rightarrow> int \<Rightarrow> manager \<Rightarrow> state_content world \<Rightarrow> string \<Rightarrow> overlay_Config
     \<Rightarrow> Mount outcome \<times> manager \<times> state_content world" where
  "CreateOverlay e unix_nano created m w containerID config =
     (if map_of (overlays m) containerID \<noteq> None then (Err ErrOverlayExists, m, w)
      else
        (case os_Stat e w (SnapshotPath config) of
           Inl er \<Rightarrow>
             if IsNotExist er then (Err ErrSnapshotNotFound, m, w)
             else (Err (Wrapped ''failed to stat snapshot path'' (PathError er)), m, w)
         | Inr info \<Rightarrow>
             if \<not> IsDir info then (Err ErrSnapshotNotDirectory, m, w)
             else if length containerID < 12 then (Panic, m, w)
             else
               (let overlayID = take 12 containerID @ ''_'' @ show_int unix_nano;
                    overlayDir = Join_at (BaseDir m) [overlayID];
                    upperDir = Join_at overlayDir [''upper''];
                    workDir = Join_at overlayDir [''work''];
                    mergedDir = Join_at overlayDir [''merged'']
                in
                case mkdir_each e w [upperDir, workDir, mergedDir] of
                  (Some (dir, er), w1) \<Rightarrow>
                    (Err (Wrapped ''failed to create overlay directory'' (PathError er)), m,
                     snd (os_RemoveAll e w1 overlayDir))
                | (None, w1) \<Rightarrow>
                    (let mount = \<lparr>ID = overlayID, ContainerID = containerID,
                                   LowerDir = SnapshotPath config, UpperDir = upperDir,
                                   WorkDir = workDir, MergedDir = mergedDir,
                                   ContainerPath = ContainerMountPath config,
                                   CreatedAt = created\<rparr>
                     in
                     case mountOverlay e w1 mount of
                       (Some er, w2) \<Rightarrow> (Err er, m, snd (os_RemoveAll e w2 overlayDir))
                     | (None, w2) \<Rightarrow>
                         (let m' = m\<lparr>overlays := AList.update containerID mount (overlays m)\<rparr>;
                              w3 = snd (persistState e m' w2)
                          in (Ok mount, m', w3))))))"

definition CleanupOverlay ::
  "env \<Rightarrow> manager \<Rightarrow> state_content world \<Rightarrow> string \<Rightarrow> error option \<times> manager \<times> state_content world" where
  "CleanupOverlay e m w containerID =
     (case map_of (overlays m) containerID of
        None \<Rightarrow> (None, m, w)
      | Some mount \<Rightarrow>
          (case cleanupMount e (BaseDir m) w mount of
             (Some er, w1) \<Rightarrow> (Some er, m, w1)
           | (None, w1) \<Rightarrow>
               (let m' = m\<lparr>overlays := AList.delete containerID (overlays m)\<rparr>;
                    w2 = snd (persistState e m' w1)
                in (None, m', w2))))"

text \<open>The loop of \<open>CleanupAll\<close>: every mount is cleaned up, the last error is kept.\<close>

fun cleanup_each ::
  "env \<Rightarrow> path \<Rightarrow> 'c world \<Rightarrow> registry \<Rightarrow> error option \<Rightarrow> error option \<times> 'c world" where
  "cleanup_each e base w [] lastErr = (lastErr, w)"
| "cleanup_each e base w ((containerID, mount) # rest) lastErr =
     (case cleanupMount e base w mount of
        (Some er, w') \<Rightarrow> cleanup_each e base w' rest (Some er)
      | (None, w') \<Rightarrow> cleanup_each e base w' rest lastErr)"

definition CleanupAll ::
  "env \<Rightarrow> manager \<Rightarrow> state_content world \<Rightarrow> error option \<times> manager \<times> state_content world" where
  "CleanupAll e m w =
     (case cleanup_each e (BaseDir m) w (overlays m) None of
        (lastErr, w1) \<Rightarrow> (lastErr, m\<lparr>overlays := []\<rparr>, snd (os_Remove e w1 (statePath m))))"

text \<open>
  The loop of \<open>RecoverOrphanedMounts\<close> over the decoded state: a failed cleanup is
  logged (the list of container identifiers returned) and the loop goes on; reading
  \<open>mount.ID\<close> of a nil pointer panics.
\<close>

fun recover_each ::
  "env \<Rightarrow> path \<Rightarrow> 'c world \<Rightarrow> (string \<times> Mount option) list \<Rightarrow> string list outcome \<times> 'c world" where
  "recover_each e base w [] = (Ok [], w)"
| "recover_each e base w ((containerID, None) # rest) = (Panic, w)"
| "recover_each e base w ((containerID, Some mount) # rest) =
     (case cleanupMount e base w mount of
        (r, w') \<Rightarrow>
          (case recover_each e base w' rest of
             (Ok failed, w'') \<Rightarrow> (Ok (if r = None then failed else containerID # failed), w'')
           | (other, w'') \<Rightarrow> (other, w'')))"

text \<open>
  \<open>RecoverOrphanedMounts\<close> returns the identifiers whose cleanup failed with its nil
  result. It never assigns to the registry.
\<close>

definition RecoverOrphanedMounts ::
  "env \<Rightarrow> manager \<Rightarrow> state_content world \<Rightarrow> string list outcome \<times> manager \<times> state_content world" where
  "RecoverOrphanedMounts e m w =
     (case os_ReadFile e w (statePath m) of
        Inl er \<Rightarrow>
          if IsNotExist er then (Ok [], m, w)
          else (Err (Wrapped ''failed to read state file'' (PathError er)), m, w)
      | Inr data \<Rightarrow>
          (case json_Unmarshal data of
             None \<Rightarrow> (Ok [], m, snd (os_Remove e w (statePath m)))
           | Some state \<Rightarrow>
               (case recover_each e (BaseDir m) w state of
                  (Ok failed, w1) \<Rightarrow> (Ok failed, m, snd (os_Remove e w1 (statePath m)))
                | (other, w1) \<Rightarrow> (other, m, w1))))"


definition GetOverlay :: "manager \<Rightarrow> string \<Rightarrow> Mount option" where
  "GetOverlay m containerID = map_of (overlays m) containerID"

text \<open>
  The state file agrees with the registry: it is absent when the registry is empty and
  holds the encoded registry otherwise.
\<close>

definition persisted :: "manager \<Rightarrow> state_content world \<Rightarrow> bool" where
  "persisted m w =
     (fs w (statePath m) =
        (if overlays m = [] then None else Some (File (json_Marshal (overlays m)))))"

text \<open>
  Nothing outside the program keeps the state file from being written or removed: the
  overlay root is a directory, the path of the state file is neither a directory nor a
  mount point, and the system calls on it do not fail.
\<close>

definition state_file_writable :: "env \<Rightarrow> manager \<Rightarrow> state_content world \<Rightarrow> bool" where
  "state_file_writable e m w =
     (is_dir w (BaseDir m) \<and> fs w (statePath m) \<noteq> Some Dir \<and> statePath m \<notin> mounts w \<and>
      fault e (WriteFile (statePath m)) = None \<and> fault e (Remove (statePath m)) = None)"

section \<open>Concrete runs\<close>

text \<open>
  A cache below \<open>/cache\<close>, a server at \<open>http://srv\<close>, an environment in which no
  system call fails, the server answers every request with status 200 and the body
  \<open>abc\<close>, and the archive unpacks to one directory with one file.
\<close>

definition fetcher0 :: Fetcher where
  "fetcher0 = \<lparr>cacheDir = ''/cache'', baseURL = ''http://srv''\<rparr>"

definition cfg100 :: snapshot_Config where
  "cfg100 = \<lparr>Network = ''mainnet'', Client = ''geth'', BlockNumber = ''100'', BaseURL = [], CacheDir = []\<rparr>"

definition cfg_latest :: snapshot_Config where
  "cfg_latest = \<lparr>Network = ''mainnet'', Client = ''geth'', BlockNumber = ''latest'', BaseURL = [], CacheDir = []\<rparr>"

definition entry100 :: path where
  "entry100 = [''cache'', ''mainnet'', ''geth'', ''100'']"

definition world_empty :: "string world" where
  "world_empty = \<lparr>fs = (\<lambda>p. None), mounts = {}, requests = []\<rparr>"

definition env_ok :: env where
  "env_ok =
     \<lparr>fault = (\<lambda>c. None), dir_size = 4096, url_invalid = (\<lambda>u. False),
      server = (\<lambda>n rq. Response 200 3 ''abc'' False), zstd_installed = True,
      untar = (\<lambda>b. ([([''chaindata''], Dir), ([''chaindata'', ''000001.ldb''], File ''x'')], True)),
      now_rfc3339 = ''2026-01-01T00:00:00Z'',
      decode_block = (\<lambda>body berr. None), encode_metadata = md_BlockNumber,
      unicode_ToLower = (\<lambda>s. s)\<rparr>"

text \<open>The same environment, in which the marker cannot be opened for writing.\<close>

definition env_marker_fails :: env where
  "env_marker_fails =
     env_ok\<lparr>fault := (\<lambda>c. if c = WriteFile (entry100 @ [''.complete'']) then Some EACCES else None)\<rparr>"

text \<open>
  A cache that holds complete entries for the blocks \<open>200\<close> and \<open>latest\<close>, and a server
  whose \<open>latest\<close> endpoint answers \<open>200\<close>.
\<close>

definition entry200 :: path where
  "entry200 = [''cache'', ''mainnet'', ''geth'', ''200'']"

definition entry_latest :: path where
  "entry_latest = [''cache'', ''mainnet'', ''geth'', ''latest'']"

definition world_cached :: "string world" where
  "world_cached =
     \<lparr>fs = [entry200 \<mapsto> Dir, entry200 @ [''data''] \<mapsto> Dir,
            entry200 @ [''.complete''] \<mapsto> File ''2026-01-01T00:00:00Z'',
            entry_latest \<mapsto> Dir, entry_latest @ [''data''] \<mapsto> Dir,
            entry_latest @ [''.complete''] \<mapsto> File ''2026-01-01T00:00:00Z''],
      mounts = {}, requests = []\<rparr>"

definition env_latest200 :: env where
  "env_latest200 = env_ok\<lparr>server := (\<lambda>n rq. Response 200 4 ''200\<newline>'' False)\<rparr>"

text \<open>
  An entry with an archive of three bytes left by an earlier call; a server that
  answers 416 twice and then sends the file; a server that answers 416 and then 500.
\<close>

definition world_partial :: "string world" where
  "world_partial =
     \<lparr>fs = [entry100 \<mapsto> Dir, entry100 @ [SnapshotFileName] \<mapsto> File ''abc''],
      mounts = {}, requests = []\<rparr>"

definition env_416_twice :: env where
  "env_416_twice =
     env_ok\<lparr>server := (\<lambda>n rq. if n < 2 then Response 416 0 [] False else Response 200 3 ''xyz'' False)\<rparr>"

definition env_416_then_500 :: env where
  "env_416_then_500 =
     env_ok\<lparr>server := (\<lambda>n rq. if n = 0 then Response 416 0 [] False else Response 500 0 [] False)\<rparr>"



text \<open>The server answers the next \<open>n\<close> requests, from the \<open>k\<close>-th on, with 416.\<close>

definition answers_416 :: "env \<Rightarrow> nat \<Rightarrow> nat \<Rightarrow> bool" where
  "answers_416 e k n = (\<forall>i<n. \<forall>rq. \<exists>cl body berr. server e (k + i) rq = Response 416 cl body berr)"




text \<open>
  An overlay root \<open>/var/overlays\<close> and a snapshot directory \<open>/tmp/snap\<close> with a file.
  In \<open>oworld1\<close> the container \<open>abcdef123456\<close> has a mounted overlay, recorded in the
  registry of \<open>manager1\<close> and in the state file.
\<close>

definition base0 :: path where
  "base0 = [''var'', ''overlays'']"

definition snap0 :: path where
  "snap0 = [''tmp'', ''snap'']"

definition cid0 :: string where
  "cid0 = ''abcdef123456''"

definition config0 :: overlay_Config where
  "config0 = \<lparr>SnapshotPath = snap0, ContainerMountPath = ''/data''\<rparr>"

definition manager0 :: manager where
  "manager0 = \<lparr>BaseDir = base0, overlays = []\<rparr>"

definition oworld0 :: "state_content world" where
  "oworld0 =
     \<lparr>fs = [[''var''] \<mapsto> Dir, base0 \<mapsto> Dir, [''tmp''] \<mapsto> Dir, snap0 \<mapsto> Dir,
            snap0 @ [''X''] \<mapsto> File (Raw ''x'')],
      mounts = {}, requests = []\<rparr>"

definition odir0 :: path where
  "odir0 = base0 @ [''abcdef123456_7'']"

definition mount0 :: Mount where
  "mount0 =
     \<lparr>ID = ''abcdef123456_7'', ContainerID = cid0, LowerDir = snap0,
      UpperDir = odir0 @ [''upper''], WorkDir = odir0 @ [''work''], MergedDir = odir0 @ [''merged''],
      ContainerPath = ''/data'', CreatedAt = 7\<rparr>"

definition manager1 :: manager where
  "manager1 = \<lparr>BaseDir = base0, overlays = [(cid0, mount0)]\<rparr>"

definition oworld1 :: "state_content world" where
  "oworld1 =
     \<lparr>fs = [[''var''] \<mapsto> Dir, base0 \<mapsto> Dir, [''tmp''] \<mapsto> Dir, snap0 \<mapsto> Dir,
            snap0 @ [''X''] \<mapsto> File (Raw ''x''),
            odir0 \<mapsto> Dir, odir0 @ [''upper''] \<mapsto> Dir, odir0 @ [''work''] \<mapsto> Dir,
            odir0 @ [''merged''] \<mapsto> Dir,
            base0 @ [''state.json''] \<mapsto> File (StateJSON [(cid0, Some mount0)])],
      mounts = {odir0 @ [''merged'']}, requests = []\<rparr>"

text \<open>A world whose state file does not parse.\<close>

definition oworld_malformed :: "state_content world" where
  "oworld_malformed =
     oworld0\<lparr>fs := (fs oworld0)(base0 @ [''state.json''] \<mapsto> File (Raw ''{''))\<rparr>"

text \<open>
  Environments in which every unmount fails (the mount is busy), in which the removal
  of directory trees fails, and in which the state file cannot be opened for writing.
\<close>

definition env_busy :: env where
  "env_busy = env_ok\<lparr>fault := (\<lambda>c. case c of SysUnmount p f \<Rightarrow> Some EBUSY | _ \<Rightarrow> None)\<rparr>"

definition env_no_mount_no_remove :: env where
  "env_no_mount_no_remove =
     env_ok\<lparr>fault := (\<lambda>c. case c of SysMount p \<Rightarrow> Some EPERM | RemoveAll p \<Rightarrow> Some EIO | _ \<Rightarrow> None)\<rparr>"

definition env_no_mount :: env where
  "env_no_mount = env_ok\<lparr>fault := (\<lambda>c. case c of SysMount p \<Rightarrow> Some EPERM | _ \<Rightarrow> None)\<rparr>"

definition env_state_unwritable :: env where
  "env_state_unwritable =
     env_ok\<lparr>fault := (\<lambda>c. if c = WriteFile (base0 @ [''state.json'']) then Some EACCES else None)\<rparr>"


text \<open>
  A container identifier with a \<open>..\<close> component: \<open>x/../yyyyyyy\<close>. Its overlay gets the
  identifier \<open>x/../yyyyyyy_7\<close> and the directory \<open>/var/overlays/yyyyyyy_7\<close>.
\<close>

definition cid_dots :: string where
  "cid_dots = ''x/../yyyyyyy''"

definition odir_dots :: path where
  "odir_dots = base0 @ [''yyyyyyy_7'']"

definition mount_dots :: Mount where
  "mount_dots =
     \<lparr>ID = ''x/../yyyyyyy_7'', ContainerID = cid_dots, LowerDir = snap0,
      UpperDir = odir_dots @ [''upper''], WorkDir = odir_dots @ [''work''],
      MergedDir = odir_dots @ [''merged''], ContainerPath = ''/data'', CreatedAt = 7\<rparr>"

definition manager_dots :: manager where
  "manager_dots = \<lparr>BaseDir = base0, overlays = [(cid_dots, mount_dots)]\<rparr>"
section \<open>Lemmas on paths and on the operating system\<close>

lemma split_slash_plain: "CHR ''/'' \<notin> set s \<Longrightarrow> split_slash s = [s]"
  by (induction s) auto

lemma Join_at_name:
  "CHR ''/'' \<notin> set n \<Longrightarrow> n \<noteq> [] \<Longrightarrow> n \<noteq> ''.'' \<Longrightarrow> n \<noteq> ''..'' \<Longrightarrow> Join_at d [n] = d @ [n]"
  by (simp add: Join_at_def split_slash_plain clean_step_def)

lemma Join_at_data [simp]: "Join_at d [''data''] = d @ [''data'']"
  by (rule Join_at_name) simp_all

lemma Join_at_complete [simp]: "Join_at d [''.complete''] = d @ [''.complete'']"
  by (rule Join_at_name) simp_all

lemma Join_at_archive [simp]: "Join_at d [SnapshotFileName] = d @ [SnapshotFileName]"
  by (rule Join_at_name) (simp_all add: SnapshotFileName_def)

lemma write_tree_outside: "\<not> strict_prefix d q \<Longrightarrow> write_tree d es f q = f q"
proof (induction es arbitrary: f)
  case Nil
  then show ?case by simp
next
  case (Cons a es)
  obtain r n where a: "a = (r, n)" by (cases a)
  have "r \<noteq> [] \<Longrightarrow> q \<noteq> d @ r"
    using Cons.prems by (auto simp: strict_prefix_def)
  then show ?case using Cons a by auto
qed

lemma os_MkdirAll_ok_dir:
  assumes "os_MkdirAll e w p = (None, w')"
  shows "fs w' p = Some Dir"
proof -
  from assms have nf: "\<not> is_file w p" and
    w': "w' = w\<lparr>fs := (\<lambda>q. if prefix q p \<and> fs w q = None then Some Dir else fs w q)\<rparr>"
    by (auto simp: os_MkdirAll_def split: option.splits if_splits)
  from nf have "fs w p = None \<or> fs w p = Some Dir"
    by (auto simp: is_file_def split: option.splits node.splits)
  with w' show ?thesis by auto
qed

lemma os_MkdirAll_frame:
  assumes "os_MkdirAll e w p = (r, w')"
  shows "mounts w' = mounts w" "requests w' = requests w"
    "\<not> prefix q p \<Longrightarrow> fs w' q = fs w q"
    "fs w q \<noteq> None \<Longrightarrow> fs w' q = fs w q"
    "r \<noteq> None \<Longrightarrow> w' = w"
  using assms
  by (auto simp: os_MkdirAll_def split: option.splits if_splits)

lemma os_Remove_frame:
  assumes "os_Remove e w p = (r, w')"
  shows "mounts w' = mounts w" "requests w' = requests w"
    "q \<noteq> p \<Longrightarrow> fs w' q = fs w q"
    "r = None \<Longrightarrow> fs w' p = None"
    "r \<noteq> None \<Longrightarrow> w' = w"
  using assms
  by (auto simp: os_Remove_def split: option.splits if_splits)

lemma os_RemoveAll_frame:
  assumes "os_RemoveAll e w p = (r, w')"
  shows "mounts w' = mounts w" "requests w' = requests w"
    "\<not> prefix p q \<Longrightarrow> fs w' q = fs w q"
    "r = None \<Longrightarrow> prefix p q \<Longrightarrow> fs w' q = None"
    "r \<noteq> None \<Longrightarrow> w' = w"
    "fs w q = None \<Longrightarrow> fs w' q = None"
  using assms
  by (auto simp: os_RemoveAll_def split: option.splits if_splits)

lemma os_WriteFile_frame:
  assumes "os_WriteFile e w p c = (r, w')"
  shows "mounts w' = mounts w" "requests w' = requests w"
    "q \<noteq> p \<Longrightarrow> fs w' q = fs w q"
    "r = None \<Longrightarrow> fs w' p = Some (File c)"
    "r \<noteq> None \<Longrightarrow> w' = w"
  using assms
  by (auto simp: os_WriteFile_def split: option.splits if_splits)

lemma os_Create_frame:
  assumes "os_Create e w p = (r, w')"
  shows "mounts w' = mounts w" "requests w' = requests w"
    "q \<noteq> p \<Longrightarrow> fs w' q = fs w q"
    "r = None \<Longrightarrow> fs w' p = Some (File [])"
    "r \<noteq> None \<Longrightarrow> w' = w"
  using assms
  by (auto simp: os_Create_def split: option.splits if_splits)

lemma io_Copy_frame:
  assumes "io_Copy e w p body berr = (r, w')"
  shows "mounts w' = mounts w" "requests w' = requests w"
    "q \<noteq> p \<Longrightarrow> fs w' q = fs w q"
    "is_file w p \<Longrightarrow> is_file w' p"
  using assms
  by (auto simp: io_Copy_def is_file_def Let_def split: option.splits if_splits node.splits)

lemma client_Do_frame:
  assumes "client_Do e w req = (resp, w')"
  shows "mounts w' = mounts w" "requests w' = requests w @ [req]" "fs w' = fs w"
  using assms by (auto simp: client_Do_def)

lemma os_OpenAppend_ok: "os_OpenAppend e w p = None \<Longrightarrow> is_file w p"
  by (auto simp: os_OpenAppend_def is_file_def split: option.splits node.splits)

lemmas downloadFile_induct = downloadFile.raw_induct[rotated 1, consumes 1, case_names step]

lemma downloadFile_frame_aux:
  assumes "downloadFile e u dest w = Some y"
  shows "mounts (snd y) = mounts w \<and> (\<forall>q. q \<noteq> dest \<longrightarrow> fs (snd y) q = fs w q)
         \<and> (fst y = None \<longrightarrow> is_file (snd y) dest) \<and> prefix (requests w) (requests (snd y))
         \<and> (\<not> url_invalid e u \<longrightarrow> prefix (requests w @ [range_request e u dest w]) (requests (snd y)))"
  using assms
proof (induction e u dest w y rule: downloadFile_induct)
  case (step df e u destPath w y)
  obtain r w' where y: "y = (r, w')" by (cases y)
  obtain resp w1 where cd: "client_Do e w (range_request e u destPath w) = (resp, w1)"
    by (cases "client_Do e w (range_request e u destPath w)")
  note f1 = client_Do_frame[OF cd]
  show ?case
  proof (cases "url_invalid e u")
    case True
    with step(2) y show ?thesis by auto
  next
    case valid: False
    show ?thesis
    proof (cases resp)
      case TransportError
      with step(2) valid cd y have "w' = w1" "r \<noteq> None" by auto
      with f1 y show ?thesis by force
    next
      case (Response st cl body berr)
      consider (ok) "st = 200" | (part) "st = 206" | (retry) "st = 416"
        | (other) "st \<noteq> 200" "st \<noteq> 206" "st \<noteq> 416" by blast
      then show ?thesis
      proof cases
        case ok
        obtain r2 w2 where cr: "os_Create e w1 destPath = (r2, w2)"
          by (cases "os_Create e w1 destPath")
        note f2 = os_Create_frame[OF cr]
        show ?thesis
        proof (cases r2)
          case None
          with step(2) valid cd Response ok cr y
          have ic: "io_Copy e w2 destPath body berr = (r, w')" by simp
          have "is_file w2 destPath" using f2(4) None by (simp add: is_file_def)
          with io_Copy_frame[OF ic] f1 f2 y show ?thesis by force
        next
          case (Some er)
          with step(2) valid cd Response ok cr y have "w' = w2" "r \<noteq> None" by auto
          with f1 f2 y show ?thesis by force
        qed
      next
        case part
        show ?thesis
        proof (cases "os_OpenAppend e w1 destPath")
          case None
          with step(2) valid cd Response part y
          have ic: "io_Copy e w1 destPath body berr = (r, w')" by simp
          from io_Copy_frame[OF ic] os_OpenAppend_ok[OF None] f1 y show ?thesis by force
        next
          case (Some er)
          with step(2) valid cd Response part y have "w' = w1" "r \<noteq> None" by auto
          with f1 y show ?thesis by force
        qed
      next
        case retry
        obtain r3 w3 where rm: "os_Remove e w1 destPath = (r3, w3)"
          by (cases "os_Remove e w1 destPath")
        note f3 = os_Remove_frame[OF rm]
        from step(2) valid cd Response retry rm
        have "df e u destPath w3 = Some y" by simp
        from step(1)[OF this]
        have ih: "mounts (snd y) = mounts w3" "\<And>q. q \<noteq> destPath \<Longrightarrow> fs (snd y) q = fs w3 q"
          "fst y = None \<longrightarrow> is_file (snd y) destPath" "prefix (requests w3) (requests (snd y))"
          by simp_all
        have rq: "requests w3 = requests w @ [range_request e u destPath w]"
          using f1 f3 by simp
        have "prefix (requests w) (requests (snd y))"
          using ih(4) rq by (metis append_prefixD)
        with ih rq f1 f3 show ?thesis by simp
      next
        case other
        with step(2) valid cd Response y have "w' = w1" "r \<noteq> None" by auto
        with f1 y show ?thesis by force
      qed
    qed
  qed
qed

lemma downloadFile_frame:
  assumes "downloadFile e u dest w = Some (r, w')"
  shows "mounts w' = mounts w" "q \<noteq> dest \<Longrightarrow> fs w' q = fs w q"
    "r = None \<Longrightarrow> is_file w' dest" "prefix (requests w) (requests w')"
    "\<not> url_invalid e u \<Longrightarrow> prefix (requests w @ [range_request e u dest w]) (requests w')"
  using downloadFile_frame_aux[OF assms] by simp_all

lemma downloadSnapshot_stages:
  assumes "downloadSnapshot e w base net cl blk d = Some (r, w')"
  obtains
    (mkdir_fail) er where
      "os_MkdirAll e w d = (Some er, w')"
      "r = Some (Wrapped ''failed to create snapshot directory'' (PathError er))"
  | (download_fail) w1 er where
      "os_MkdirAll e w d = (None, w1)"
      "downloadFile e (base @ ''/'' @ net @ ''/'' @ cl @ ''/'' @ blk @ ''/'' @ SnapshotFileName)
         (d @ [SnapshotFileName]) w1 = Some (Some er, w')"
      "r = Some (Wrapped ''failed to download snapshot (partial file preserved for resume)'' er)"
  | (mkdir_data_fail) w1 w2 er where
      "os_MkdirAll e w d = (None, w1)"
      "downloadFile e (base @ ''/'' @ net @ ''/'' @ cl @ ''/'' @ blk @ ''/'' @ SnapshotFileName)
         (d @ [SnapshotFileName]) w1 = Some (None, w2)"
      "os_MkdirAll e w2 (d @ [''data'']) = (Some er, w')"
      "r = Some (Wrapped ''failed to create extraction directory'' (PathError er))"
  | (extract_fail) w1 w2 w3 w4 er where
      "os_MkdirAll e w d = (None, w1)"
      "downloadFile e (base @ ''/'' @ net @ ''/'' @ cl @ ''/'' @ blk @ ''/'' @ SnapshotFileName)
         (d @ [SnapshotFileName]) w1 = Some (None, w2)"
      "os_MkdirAll e w2 (d @ [''data'']) = (None, w3)"
      "extractTarZst e w3 (d @ [SnapshotFileName]) (d @ [''data'']) = (Some er, w4)"
      "w' = snd (os_RemoveAll e w4 (d @ [''data'']))"
      "r = Some (Wrapped ''failed to extract snapshot (archive preserved)'' er)"
  | (success) w1 w2 w3 w4 where
      "os_MkdirAll e w d = (None, w1)"
      "downloadFile e (base @ ''/'' @ net @ ''/'' @ cl @ ''/'' @ blk @ ''/'' @ SnapshotFileName)
         (d @ [SnapshotFileName]) w1 = Some (None, w2)"
      "os_MkdirAll e w2 (d @ [''data'']) = (None, w3)"
      "extractTarZst e w3 (d @ [SnapshotFileName]) (d @ [''data'']) = (None, w4)"
      "w' = snd (os_WriteFile e (snd (os_Remove e w4 (d @ [SnapshotFileName]))) (d @ [''.complete''])
                 (now_rfc3339 e))"
      "r = None"
  using assms unfolding downloadSnapshot_def
  by (auto simp: Let_def split: prod.splits option.splits)


lemma extractTarZst_frame:
  assumes "extractTarZst e w a d = (r, w')"
  shows "mounts w' = mounts w" "requests w' = requests w"
    "\<not> strict_prefix d q \<Longrightarrow> fs w' q = fs w q"
  using assms
  by (auto simp: extractTarZst_def write_tree_outside split: if_splits prod.splits)

lemma sibling_facts [simp]:
  "\<not> prefix (d @ [a]) d" "\<not> strict_prefix (d @ [a]) (d @ [b])"
  "prefix (d @ [a]) (d @ [b]) \<longleftrightarrow> a = b" "\<not> strict_prefix (d @ [a]) d"
  by (auto simp: strict_prefix_def)

lemma names_distinct [simp]:
  "SnapshotFileName \<noteq> ''data''" "SnapshotFileName \<noteq> ''.complete''"
  "''data'' \<noteq> SnapshotFileName" "''.complete'' \<noteq> SnapshotFileName"
  by (simp_all add: SnapshotFileName_def)


text \<open>
  A successful run leaves \<open>data\<close> a directory, and the marker a file when the write of
  the marker does not fail.
\<close>

lemma downloadSnapshot_success:
  assumes "downloadSnapshot e w base net cl blk d = Some (None, w')"
  shows "fs w' (d @ [''data'']) = Some Dir \<and>
         (fault e (WriteFile (d @ [''.complete''])) = None \<longrightarrow> fs w (d @ [''.complete'']) \<noteq> Some Dir
           \<longrightarrow> fs w' (d @ [''.complete'']) = Some (File (now_rfc3339 e)))"
  using assms
proof (cases rule: downloadSnapshot_stages)
  case (success w1 w2 w3 w4)
  obtain r5 w5 where rm: "os_Remove e w4 (d @ [SnapshotFileName]) = (r5, w5)"
    by (cases "os_Remove e w4 (d @ [SnapshotFileName])")
  obtain r6 w6 where wf: "os_WriteFile e w5 (d @ [''.complete'']) (now_rfc3339 e) = (r6, w6)"
    by (cases "os_WriteFile e w5 (d @ [''.complete'']) (now_rfc3339 e)")
  have w': "w' = w6" using success(5) rm wf by simp
  have d1: "fs w1 d = Some Dir" by (rule os_MkdirAll_ok_dir[OF success(1)])
  have d2: "fs w2 d = Some Dir"
    using downloadFile_frame(2)[OF success(2), of d] d1 by simp
  have d3: "fs w3 d = Some Dir"
    using os_MkdirAll_frame(4)[OF success(3), of d] d2 by simp
  have d4: "fs w4 d = Some Dir"
    using extractTarZst_frame(3)[OF success(4), of d] d3 by simp
  have d5: "fs w5 d = Some Dir"
    using os_Remove_frame(3)[OF rm, of d] d4 by simp
  have x3: "fs w3 (d @ [''data'']) = Some Dir" by (rule os_MkdirAll_ok_dir[OF success(3)])
  have x4: "fs w4 (d @ [''data'']) = Some Dir"
    using extractTarZst_frame(3)[OF success(4), of "d @ [''data'']"] x3 by simp
  have x5: "fs w5 (d @ [''data'']) = Some Dir"
    using os_Remove_frame(3)[OF rm, of "d @ [''data'']"] x4 by simp
  have x6: "fs w6 (d @ [''data'']) = Some Dir"
    using os_WriteFile_frame(3)[OF wf, of "d @ [''data'']"] x5 by simp
  have m5: "fs w5 (d @ [''.complete'']) = fs w (d @ [''.complete''])"
    using os_MkdirAll_frame(3)[OF success(1), of "d @ [''.complete'']"]
      downloadFile_frame(2)[OF success(2), of "d @ [''.complete'']"]
      os_MkdirAll_frame(3)[OF success(3), of "d @ [''.complete'']"]
      extractTarZst_frame(3)[OF success(4), of "d @ [''.complete'']"]
      os_Remove_frame(3)[OF rm, of "d @ [''.complete'']"]
    by simp
  have "fault e (WriteFile (d @ [''.complete''])) = None \<Longrightarrow> fs w (d @ [''.complete'']) \<noteq> Some Dir
           \<Longrightarrow> fs w6 (d @ [''.complete'']) = Some (File (now_rfc3339 e))"
    using wf m5 d5 by (auto simp: os_WriteFile_def is_dir_def split: if_splits)
  with x6 w' show ?thesis by simp
qed (simp_all)

lemma resolveLatestBlock_frame:
  assumes "resolveLatestBlock e w base net cl = (r, w')"
  shows "fs w' = fs w" "mounts w' = mounts w"
  using assms
  by (auto simp: resolveLatestBlock_def client_Do_def Let_def split: if_splits prod.splits response.splits)

lemma resolve_block_frame:
  assumes "resolve_block e f w cfg = (r, w')"
  shows "fs w' = fs w" "mounts w' = mounts w"
  using assms
  by (auto simp: resolve_block_def Let_def split: if_splits prod.splits sum.splits
      dest: resolveLatestBlock_frame)

lemmas scenario_defs =
  cfg100_def cfg_latest_def fetcher0_def world_empty_def entry100_def entry200_def entry_latest_def
  env_ok_def env_latest200_def world_cached_def world_partial_def env_416_twice_def
  env_416_then_500_def env_marker_fails_def

lemma resolve_block_concrete:
  "BlockNumber cfg \<noteq> [] \<Longrightarrow> BlockNumber cfg \<noteq> ''latest'' \<Longrightarrow>
   resolve_block e f w cfg = (Inr (BlockNumber cfg), w)"
  by (simp add: resolve_block_def)

lemma ensure_cache_hit:
  assumes "resolve_block e f w cfg = (Inr blk, w1)"
      and "fs w (snapshotDir_of e f cfg blk @ [''.complete'']) \<noteq> None"
      and "fault e (Stat (snapshotDir_of e f cfg blk @ [''.complete''])) = None"
  shows "EnsureSnapshot e f w cfg = Some (Inr (snapshotDir_of e f cfg blk @ [''data'']), w1)"
  using assms resolve_block_frame(1)[OF assms(1)]
  by (auto simp: EnsureSnapshot_def os_Stat_def)

lemma ensure_marker_after:
  assumes "resolve_block e f w cfg = (Inr blk, w1)"
      and "EnsureSnapshot e f w cfg = Some (Inr p, w')"
      and "fault e (WriteFile (snapshotDir_of e f cfg blk @ [''.complete''])) = None"
      and "fs w (snapshotDir_of e f cfg blk @ [''.complete'']) \<noteq> Some Dir"
  shows "fs w' (snapshotDir_of e f cfg blk @ [''.complete'']) \<noteq> None"
    and "p = snapshotDir_of e f cfg blk @ [''data'']"
proof -
  let ?d = "snapshotDir_of e f cfg blk"
  note fr = resolve_block_frame[OF assms(1)]
  have "fs w' (?d @ [''.complete'']) \<noteq> None \<and> p = ?d @ [''data'']"
  proof (cases "os_Stat e w1 (?d @ [''.complete''])")
    case (Inr st)
    then have ex: "fs w (?d @ [''.complete'']) \<noteq> None"
      using fr by (auto simp: os_Stat_def split: option.splits)
    from Inr assms have "p = ?d @ [''data'']" "w' = w1"
      by (auto simp: EnsureSnapshot_def Let_def)
    with ex fr show ?thesis by auto
  next
    case (Inl er)
    from Inl assms(1,2) obtain w2 where
      ds: "downloadSnapshot e w1 (baseURL_of f cfg) (ToLower e (Network cfg))
        (ToLower e (mapClientName e (Client cfg))) blk ?d = Some (None, w2)"
      and r: "p = ?d @ [''data'']" "w' = w2"
      by (auto simp: EnsureSnapshot_def Let_def split: option.splits)
    from downloadSnapshot_success[OF ds] r fr assms(3,4) show ?thesis by auto
  qed
  then show "fs w' (?d @ [''.complete'']) \<noteq> None" "p = ?d @ [''data'']" by simp_all
qed

section \<open>Lemmas on the overlay manager\<close>

lemma Join_at_overlay_names [simp]:
  "Join_at d [''upper''] = d @ [''upper'']" "Join_at d [''work''] = d @ [''work'']"
  "Join_at d [''merged''] = d @ [''merged'']" "Join_at d [''state.json''] = d @ [''state.json'']"
  by (rule Join_at_name; simp)+

lemma statePath_eq [simp]: "statePath m = BaseDir m @ [''state.json'']"
  by (simp add: statePath_def)

lemma sys_Unmount_frame:
  assumes "sys_Unmount e w p f = (r, w')"
  shows "fs w' = fs w" "mounts w' \<subseteq> mounts w" "r \<noteq> None \<Longrightarrow> w' = w"
  using assms by (auto simp: sys_Unmount_def split: option.splits if_splits)

text \<open>
  Where the kernel's walk of a written path succeeds, it ends at the path that
  \<open>filepath.Join\<close> computes; it reads the file system only.
\<close>

lemma walk_clean: "walk w cur cs = Inr p \<Longrightarrow> p = foldl clean_step cur cs"
  by (induction cs arbitrary: cur) (auto simp: clean_step_def split: if_splits)


lemma walk_cong: "fs w1 = fs w \<Longrightarrow> walk w1 cur cs = walk w cur cs"
  by (induction cs arbitrary: cur) (simp_all add: is_dir_def)


lemma os_RemoveAll_at_frame:
  assumes "os_RemoveAll_at e w dir comps = (r, w')"
  shows "mounts w' = mounts w"
    "\<not> prefix (foldl clean_step dir comps) q \<Longrightarrow> fs w' q = fs w q"
    "r = None \<Longrightarrow> walk w dir comps = Inr p \<Longrightarrow> prefix p q \<Longrightarrow> fs w' q = None"
    "fs w q = None \<Longrightarrow> fs w' q = None"
    "r = None \<Longrightarrow> walk w dir comps \<noteq> Inr (foldl clean_step dir comps) \<Longrightarrow> w' = w"
proof -
  show "mounts w' = mounts w"
    using assms
    by (auto simp: os_RemoveAll_at_def os_RemoveAll_def
        split: if_splits sum.splits list.splits option.splits)
  show "fs w q = None \<Longrightarrow> fs w' q = None"
    using assms
    by (auto simp: os_RemoveAll_at_def os_RemoveAll_def
        split: if_splits sum.splits list.splits option.splits)
  show "fs w' q = fs w q" if "\<not> prefix (foldl clean_step dir comps) q"
  proof (cases "walk w dir comps")
    case (Inl er)
    with assms show ?thesis by (auto simp: os_RemoveAll_at_def split: if_splits)
  next
    case (Inr p')
    then have "p' = foldl clean_step dir comps" by (rule walk_clean)
    with that have "\<not> prefix p' q" "\<not> strict_prefix p' q" by (auto simp: strict_prefix_def)
    with assms Inr show ?thesis
      by (auto simp: os_RemoveAll_at_def os_RemoveAll_def
          split: if_splits list.splits option.splits)
  qed
  show "fs w' q = None" if "r = None" "walk w dir comps = Inr p" "prefix p q"
    using assms that
    by (auto simp: os_RemoveAll_at_def os_RemoveAll_def
        split: if_splits list.splits option.splits)
  show "w' = w" if "r = None" "walk w dir comps \<noteq> Inr (foldl clean_step dir comps)"
  proof (cases "walk w dir comps")
    case (Inl er)
    with assms show ?thesis by (auto simp: os_RemoveAll_at_def split: if_splits)
  next
    case (Inr p')
    with walk_clean[OF Inr] that(2) show ?thesis by simp
  qed
qed

lemma cleanupDirs_frame:
  assumes "cleanupDirs e base w mt = (r, w')"
  shows "mounts w' = mounts w"
    "\<not> prefix (overlayDir_of base mt) q \<Longrightarrow> fs w' q = fs w q"
    "r = None \<Longrightarrow> walk w base (split_slash (ID mt)) = Inr p \<Longrightarrow> prefix p q \<Longrightarrow> fs w' q = None"
    "fs w q = None \<Longrightarrow> fs w' q = None"
proof -
  obtain r0 where ra: "os_RemoveAll_at e w base (split_slash (ID mt)) = (r0, w')"
    and r: "r = None \<longleftrightarrow> r0 = None"
    using assms by (auto simp: cleanupDirs_def split: prod.splits option.splits)
  note f = os_RemoveAll_at_frame[OF ra]
  show "mounts w' = mounts w" by (rule f(1))
  show "\<not> prefix (overlayDir_of base mt) q \<Longrightarrow> fs w' q = fs w q"
    using f(2)[of q] by (simp add: overlayDir_of_def Join_at_def)
  show "r = None \<Longrightarrow> walk w base (split_slash (ID mt)) = Inr p \<Longrightarrow> prefix p q \<Longrightarrow> fs w' q = None"
    using f(3)[of p q] r by simp
  show "fs w q = None \<Longrightarrow> fs w' q = None" by (rule f(4))
qed

lemma cleanupMount_frame:
  assumes "cleanupMount e base w mt = (r, w')"
  shows "mounts w' \<subseteq> mounts w"
    "\<not> prefix (overlayDir_of base mt) q \<Longrightarrow> fs w' q = fs w q"
    "r = None \<Longrightarrow> walk w base (split_slash (ID mt)) = Inr p \<Longrightarrow> prefix p q \<Longrightarrow> fs w' q = None"
    "fs w q = None \<Longrightarrow> fs w' q = None"
proof -
  have "\<exists>w0. fs w0 = fs w \<and> mounts w0 \<subseteq> mounts w \<and>
          (cleanupDirs e base w0 mt = (r, w') \<or> r = Some ErrUnmountFailed \<and> w' = w0)"
  proof (cases "isMounted e w (MergedDir mt)")
    case False
    with assms have "cleanupDirs e base w mt = (r, w')" by (simp add: cleanupMount_def)
    then show ?thesis by blast
  next
    case True
    obtain r1 w1 where u1: "sys_Unmount e w (MergedDir mt) 0 = (r1, w1)"
      by (cases "sys_Unmount e w (MergedDir mt) 0")
    obtain r2 w2 where u2: "sys_Unmount e w1 (MergedDir mt) MNT_DETACH = (r2, w2)"
      by (cases "sys_Unmount e w1 (MergedDir mt) MNT_DETACH")
    obtain r3 w3 where u3: "sys_Unmount e w2 (MergedDir mt) (MNT_FORCE + MNT_DETACH) = (r3, w3)"
      by (cases "sys_Unmount e w2 (MergedDir mt) (MNT_FORCE + MNT_DETACH)")
    note f1 = sys_Unmount_frame[OF u1] and f2 = sys_Unmount_frame[OF u2]
      and f3 = sys_Unmount_frame[OF u3]
    consider (a) "r1 = None" "cleanupDirs e base w1 mt = (r, w')"
      | (b) "r1 \<noteq> None" "r2 = None" "cleanupDirs e base w2 mt = (r, w')"
      | (c) "r1 \<noteq> None" "r2 \<noteq> None" "r3 = None" "cleanupDirs e base w3 mt = (r, w')"
      | (d) "r1 \<noteq> None" "r2 \<noteq> None" "r3 \<noteq> None" "r = Some ErrUnmountFailed" "w' = w3"
      using assms True u1 u2 u3
      by (auto simp: cleanupMount_def split: option.splits)
    then show ?thesis
    proof cases
      case a
      with f1 show ?thesis by blast
    next
      case b
      with f1 f2 have "fs w2 = fs w" "mounts w2 \<subseteq> mounts w" by auto
      with b show ?thesis by blast
    next
      case c
      with f1 f2 f3 have "fs w3 = fs w" "mounts w3 \<subseteq> mounts w" by auto
      with c show ?thesis by blast
    next
      case d
      with f1 f2 f3 have "fs w3 = fs w" "mounts w3 \<subseteq> mounts w" by auto
      with d show ?thesis by blast
    qed
  qed
  then obtain w0 where w0: "fs w0 = fs w" "mounts w0 \<subseteq> mounts w"
    and alt: "cleanupDirs e base w0 mt = (r, w') \<or> r = Some ErrUnmountFailed \<and> w' = w0"
    by blast
  from alt show "mounts w' \<subseteq> mounts w"
    using w0 cleanupDirs_frame(1) by fastforce
  from alt show "\<not> prefix (overlayDir_of base mt) q \<Longrightarrow> fs w' q = fs w q"
    using w0 cleanupDirs_frame(2)[of e base w0 mt r w' q] by auto
  from alt show "fs w q = None \<Longrightarrow> fs w' q = None"
    using w0 cleanupDirs_frame(4)[of e base w0 mt r w' q] by auto
  show "fs w' q = None" if "r = None" "walk w base (split_slash (ID mt)) = Inr p" "prefix p q"
  proof -
    from alt that(1) have cd: "cleanupDirs e base w0 mt = (r, w')" by auto
    from that(2) walk_cong[OF w0(1)] have "walk w0 base (split_slash (ID mt)) = Inr p" by simp
    from cleanupDirs_frame(3)[OF cd that(1) this that(3)] show ?thesis .
  qed
qed



lemmas overlay_scenario_defs =
  base0_def snap0_def cid0_def config0_def manager0_def oworld0_def odir0_def mount0_def
  manager1_def oworld1_def env_busy_def env_no_mount_no_remove_def env_no_mount_def
  env_state_unwritable_def env_ok_def cid_dots_def odir_dots_def mount_dots_def manager_dots_def
  oworld_malformed_def

lemmas overlay_eval =
  CreateOverlay_def CleanupOverlay_def CleanupAll_def RecoverOrphanedMounts_def GetOverlay_def
  persistState_def cleanupMount_def cleanupDirs_def isMounted_def sys_Unmount_def sys_Mount_def
  mountOverlay_def killProcesses_def overlayDir_of_def json_Marshal_def json_Unmarshal_def
  MNT_FORCE_def MNT_DETACH_def os_Stat_def os_MkdirAll_def os_Remove_def os_RemoveAll_def
  os_RemoveAll_at_def
  os_WriteFile_def os_ReadFile_def IsDir_def IsNotExist_def IsPermission_def is_dir_def is_file_def
  Join_at_def clean_step_def show_int_def show_nat.simps digit_def Let_def

lemma create_ok_returns:
  "\<exists>m' w'. CreateOverlay env_ok 7 7 manager0 oworld0 cid0 config0 = (Ok mount0, m', w')"
  by (simp add: overlay_eval overlay_scenario_defs)

lemma cleanupMount_all_unmounts_fail:
  assumes "isMounted e w (MergedDir mt)"
      and "fst (sys_Unmount e w (MergedDir mt) 0) \<noteq> None"
      and "fst (sys_Unmount e w (MergedDir mt) MNT_DETACH) \<noteq> None"
      and "fst (sys_Unmount e w (MergedDir mt) (MNT_FORCE + MNT_DETACH)) \<noteq> None"
  shows "cleanupMount e base w mt = (Some ErrUnmountFailed, w)"
proof -
  have u: "sys_Unmount e w (MergedDir mt) f = (fst (sys_Unmount e w (MergedDir mt) f), w)"
    if "fst (sys_Unmount e w (MergedDir mt) f) \<noteq> None" for f
    using that sys_Unmount_frame(3)[of e w "MergedDir mt" f]
    by (cases "sys_Unmount e w (MergedDir mt) f") auto
  from assms(2) obtain e1 where u1: "sys_Unmount e w (MergedDir mt) 0 = (Some e1, w)"
    using u by fastforce
  from assms(3) obtain e2 where u2: "sys_Unmount e w (MergedDir mt) MNT_DETACH = (Some e2, w)"
    using u by fastforce
  from assms(4) obtain e3 where
    u3: "sys_Unmount e w (MergedDir mt) (MNT_FORCE + MNT_DETACH) = (Some e3, w)"
    using u by fastforce
  show ?thesis using assms(1) u1 u2 u3 by (simp add: cleanupMount_def)
qed

lemma CleanupOverlay_cases:
  assumes "map_of (overlays m) c = Some mt" and "CleanupOverlay e m w c = (r, m', w')"
  obtains
    (failed) er where "cleanupMount e (BaseDir m) w mt = (Some er, w')" "r = Some er" "m' = m"
  | (cleaned) w1 where "cleanupMount e (BaseDir m) w mt = (None, w1)" "r = None"
      "m' = m\<lparr>overlays := AList.delete c (overlays m)\<rparr>"
      "w' = snd (persistState e (m\<lparr>overlays := AList.delete c (overlays m)\<rparr>) w1)"
  using assms
  by (auto simp: CleanupOverlay_def Let_def split: prod.splits option.splits)

lemma GetOverlay_deleted [simp]:
  "GetOverlay (m\<lparr>overlays := AList.delete c (overlays m)\<rparr>) c = None"
  by (simp add: GetOverlay_def delete_conv')

lemma persistState_frame:
  assumes "persistState e m w = (r, w')"
  shows "mounts w' = mounts w" "q \<noteq> statePath m \<Longrightarrow> fs w' q = fs w q"
  using assms
  by (auto simp: persistState_def os_Remove_def os_WriteFile_def
      split: if_splits option.splits prod.splits)

lemma persistState_keeps_absent:
  assumes "\<not> is_dir w (BaseDir m)" and "fs w q = None"
  shows "fs (snd (persistState e m w)) q = None"
  using assms
  by (auto simp: persistState_def os_Remove_def os_WriteFile_def split: if_splits option.splits)

lemma tree_gone_after_persist:
  assumes gone: "\<And>q. prefix d q \<Longrightarrow> fs w q = None"
      and ne: "d \<noteq> statePath m" "d \<noteq> []"
      and q: "prefix d q"
  shows "fs (snd (persistState e m w)) q = None"
proof (cases "prefix d (statePath m)")
  case False
  obtain r w' where p: "persistState e m w = (r, w')" by (cases "persistState e m w")
  from q False have "q \<noteq> statePath m" by auto
  from persistState_frame(2)[OF p this] gone[OF q] p show ?thesis by simp
next
  case True
  with ne(1) have pb: "prefix d (BaseDir m)" by (auto simp: prefix_snoc)
  with ne(2) have "BaseDir m \<noteq> []" by auto
  with gone[OF pb] have "\<not> is_dir w (BaseDir m)" by (simp add: is_dir_def)
  from persistState_keeps_absent[OF this gone[OF q]] show ?thesis .
qed

text \<open>
  The directory of an overlay that \<open>CreateOverlay\<close> registers ends in a component with
  an underscore: it is neither the root nor the state file.
\<close>

lemma split_slash_nonempty [simp]: "split_slash s \<noteq> []"
  by (induction s) (auto split: list.splits)

lemma split_slash_append:
  "CHR ''/'' \<notin> set b \<Longrightarrow>
   split_slash (a @ b) = butlast (split_slash a) @ [last (split_slash a) @ b]"
proof (induction a)
  case Nil
  then show ?case by (simp add: split_slash_plain)
next
  case (Cons c a)
  then show ?case
    by (cases "split_slash a"; cases "split_slash (a @ b)") (auto split: list.splits)
qed

lemma show_nat_digits: "set (show_nat n) \<subseteq> set ''0123456789''"
proof (induction n rule: show_nat.induct)
  case (1 n)
  have d: "digit k \<in> set ''0123456789''" if "k < 10" for k
    unfolding digit_def using that by (intro nth_mem) simp
  show ?case
  proof (cases "n < 10")
    case True
    then show ?thesis using d[of n] by (subst show_nat.simps) simp
  next
    case False
    with 1 d[of "n mod 10"] show ?thesis by (subst show_nat.simps) auto
  qed
qed

lemma show_int_no_slash: "CHR ''/'' \<notin> set (show_int i)"
  using show_nat_digits[of "nat i"] show_nat_digits[of "nat (- i)"]
  by (auto simp: show_int_def)

lemma overlayDir_shape:
  "\<exists>ys p. Join_at base [pre @ ''_'' @ show_int t] = ys @ [p] \<and> CHR ''_'' \<in> set p"
proof -
  let ?lp = "last (split_slash pre) @ ''_'' @ show_int t"
  have "split_slash (pre @ ''_'' @ show_int t) = butlast (split_slash pre) @ [?lp]"
    by (rule split_slash_append) (simp add: show_int_no_slash)
  then have "Join_at base [pre @ ''_'' @ show_int t] =
      clean_step (foldl clean_step base (butlast (split_slash pre))) ?lp"
    by (simp add: Join_at_def)
  moreover have "?lp \<noteq> []" "?lp \<noteq> ''.''" "?lp \<noteq> ''..''" "CHR ''_'' \<in> set ?lp"
    by (auto simp: append_eq_Cons_conv Cons_eq_append_conv)
  ultimately show ?thesis by (auto simp: clean_step_def)
qed

lemma CreateOverlay_dir_wellformed:
  assumes "CreateOverlay e t created m w c config = (Ok mt, m', w')"
  shows "overlayDir_of (BaseDir m) mt \<noteq> statePath m \<and> overlayDir_of (BaseDir m) mt \<noteq> []"
proof -
  from assms have "ID mt = take 12 c @ ''_'' @ show_int t"
    by (auto simp: CreateOverlay_def Let_def split: if_splits sum.splits prod.splits option.splits)
  with overlayDir_shape[of "BaseDir m" "take 12 c" t]
  obtain ys p where "overlayDir_of (BaseDir m) mt = ys @ [p]" "CHR ''_'' \<in> set p"
    by (auto simp: overlayDir_of_def)
  then show ?thesis by auto
qed

lemma mkdir_each_frame:
  assumes "mkdir_each e w ds = (r, w')"
  shows "mounts w' = mounts w \<and> (\<forall>q. (\<forall>d\<in>set ds. \<not> prefix q d) \<longrightarrow> fs w' q = fs w q) \<and>
         (\<forall>q. fs w q \<noteq> None \<longrightarrow> fs w' q = fs w q)"
  using assms
proof (induction ds arbitrary: w)
  case Nil
  then show ?case by simp
next
  case (Cons d ds)
  obtain r1 w1 where mk: "os_MkdirAll e w d = (r1, w1)" by (cases "os_MkdirAll e w d")
  note f = os_MkdirAll_frame[OF mk]
  show ?case
  proof (cases r1)
    case None
    with Cons.prems mk have "mkdir_each e w1 ds = (r, w')" by simp
    from Cons.IH[OF this] f show ?thesis by (auto simp: os_MkdirAll_frame)
  next
    case (Some er)
    with Cons.prems mk have "w' = w1" by simp
    with f Some show ?thesis by auto
  qed
qed

lemma mountOverlay_failure:
  assumes "mountOverlay e w mt = (Some er, w')"
  shows "w' = w" "er = ErrMountFailed \<or> er = ErrPermissionDenied"
  using assms
  by (auto simp: mountOverlay_def sys_Mount_def split: option.splits if_splits prod.splits)

lemma CreateOverlay_cases:
  assumes run: "CreateOverlay e t created m w c config = (r, m', w')"
  defines "od \<equiv> Join_at (BaseDir m) [take 12 c @ ''_'' @ show_int t]"
  obtains
    (early) "m' = m" "w' = w"
      "r = Err ErrOverlayExists \<or> r = Err ErrSnapshotNotFound \<or> r = Err ErrSnapshotNotDirectory \<or>
       r = Panic \<or> (\<exists>er. r = Err (Wrapped ''failed to stat snapshot path'' (PathError er)))"
  | (mkdir_failed) dir er w1 where
      "mkdir_each e w [od @ [''upper''], od @ [''work''], od @ [''merged'']] = (Some (dir, er), w1)"
      "r = Err (Wrapped ''failed to create overlay directory'' (PathError er))"
      "m' = m" "w' = snd (os_RemoveAll e w1 od)"
  | (mount_failed) w1 er mt where
      "mkdir_each e w [od @ [''upper''], od @ [''work''], od @ [''merged'']] = (None, w1)"
      "mountOverlay e w1 mt = (Some er, w1)" "r = Err er"
      "m' = m" "w' = snd (os_RemoveAll e w1 od)"
  | (created) mt w1 w2 where
      "r = Ok mt" "m' = m\<lparr>overlays := AList.update c mt (overlays m)\<rparr>"
      "w' = snd (persistState e m' w2)" "ID mt = take 12 c @ ''_'' @ show_int t"
      "mkdir_each e w [od @ [''upper''], od @ [''work''], od @ [''merged'']] = (None, w1)"
      "mountOverlay e w1 mt = (None, w2)" "MergedDir mt = od @ [''merged'']"
proof (cases "map_of (overlays m) c \<noteq> None \<or> (\<exists>er. os_Stat e w (SnapshotPath config) = Inl er) \<or>
    (\<exists>info. os_Stat e w (SnapshotPath config) = Inr info \<and> (\<not> IsDir info \<or> length c < 12))")
  case True
  with run have "m' = m" "w' = w"
      "r = Err ErrOverlayExists \<or> r = Err ErrSnapshotNotFound \<or> r = Err ErrSnapshotNotDirectory \<or>
       r = Panic \<or> (\<exists>er. r = Err (Wrapped ''failed to stat snapshot path'' (PathError er)))"
    by (auto simp: CreateOverlay_def split: if_splits)
  then show ?thesis by (rule early)
next
  case False
  then obtain info where pre: "map_of (overlays m) c = None"
    "os_Stat e w (SnapshotPath config) = Inr info" "IsDir info" "\<not> length c < 12"
    by (cases "os_Stat e w (SnapshotPath config)") auto
  let ?mt = "\<lparr>ID = take 12 c @ ''_'' @ show_int t, ContainerID = c,
               LowerDir = SnapshotPath config, UpperDir = od @ [''upper''],
               WorkDir = od @ [''work''], MergedDir = od @ [''merged''],
               ContainerPath = ContainerMountPath config, CreatedAt = created\<rparr>"
  obtain r1 w1 where mk:
    "mkdir_each e w [od @ [''upper''], od @ [''work''], od @ [''merged'']] = (r1, w1)"
    by (cases "mkdir_each e w [od @ [''upper''], od @ [''work''], od @ [''merged'']]")
  show ?thesis
  proof (cases r1)
    case (Some a)
    obtain dir er where a: "a = (dir, er)" by (cases a)
    from run pre mk Some a have
      "r = Err (Wrapped ''failed to create overlay directory'' (PathError er))"
      "m' = m" "w' = snd (os_RemoveAll e w1 od)"
      by (auto simp: CreateOverlay_def od_def Let_def simp del: mkdir_each.simps)
    with mk Some a show ?thesis by (intro mkdir_failed) simp_all
  next
    case mkdirs: None
    obtain r2 w2 where mo: "mountOverlay e w1 ?mt = (r2, w2)" by (cases "mountOverlay e w1 ?mt")
    show ?thesis
    proof (cases r2)
      case (Some er)
      from mountOverlay_failure(1)[OF mo[unfolded Some]] have w2: "w2 = w1" .
      from run pre mk mkdirs mo Some w2 have
        "r = Err er" "m' = m" "w' = snd (os_RemoveAll e w1 od)"
        by (auto simp: CreateOverlay_def od_def Let_def simp del: mkdir_each.simps)
      with mk mkdirs mo Some w2 show ?thesis by (intro mount_failed) simp_all
    next
      case None
      from run pre mk mkdirs mo None have
        "r = Ok ?mt" "m' = m\<lparr>overlays := AList.update c ?mt (overlays m)\<rparr>"
        "w' = snd (persistState e m' w2)"
        by (auto simp: CreateOverlay_def od_def Let_def simp del: mkdir_each.simps)
      then have "r = Ok ?mt" "m' = m\<lparr>overlays := AList.update c ?mt (overlays m)\<rparr>"
        "w' = snd (persistState e m' w2)" "ID ?mt = take 12 c @ ''_'' @ show_int t"
        "mkdir_each e w [od @ [''upper''], od @ [''work''], od @ [''merged'']] = (None, w1)"
        "mountOverlay e w1 ?mt = (None, w2)" "MergedDir ?mt = od @ [''merged'']"
        using mk mkdirs mo None by simp_all
      then show ?thesis by (rule created)
    qed
  qed
qed


lemma create_failure_cleanup:
  assumes mk: "mkdir_each e w [od @ [''upper''], od @ [''work''], od @ [''merged'']] = (r1, w1)"
      and w': "w' = snd (os_RemoveAll e w1 od)"
  shows "mounts w' = mounts w"
    and "\<not> prefix od q \<Longrightarrow> fs w q \<noteq> None \<or> \<not> prefix q od \<Longrightarrow> fs w' q = fs w q"
    and "fault e (RemoveAll od) = None \<Longrightarrow> \<forall>q\<in>mounts w. \<not> prefix od q \<Longrightarrow> prefix od q
           \<Longrightarrow> fs w' q = None"
proof -
  note f = mkdir_each_frame[OF mk]
  obtain r2 where ra: "os_RemoveAll e w1 od = (r2, w')"
    using w' by (cases "os_RemoveAll e w1 od") simp
  show "mounts w' = mounts w" using f os_RemoveAll_frame(1)[OF ra] by simp
  show "fs w' q = fs w q" if "\<not> prefix od q" "fs w q \<noteq> None \<or> \<not> prefix q od"
  proof -
    have "fs w1 q = fs w q"
    proof (cases "fs w q \<noteq> None")
      case True
      with f show ?thesis by blast
    next
      case False
      with that have "\<not> prefix q od" by simp
      with that(1) have "\<forall>d\<in>set [od @ [''upper''], od @ [''work''], od @ [''merged'']]. \<not> prefix q d"
        by (auto simp: prefix_snoc)
      with f show ?thesis by blast
    qed
    with os_RemoveAll_frame(3)[OF ra that(1)] show ?thesis by simp
  qed
  show "fs w' q = None" if "fault e (RemoveAll od) = None" "\<forall>q\<in>mounts w. \<not> prefix od q" "prefix od q"
    using that ra f by (auto simp: os_RemoveAll_def split: if_splits)
qed

lemma CreateOverlay_failure:
  assumes run: "CreateOverlay e t created m w c config = (r, m', w')" and nok: "\<forall>mt. r \<noteq> Ok mt"
  defines "od \<equiv> Join_at (BaseDir m) [take 12 c @ ''_'' @ show_int t]"
  shows "m' = m \<and> mounts w' = mounts w \<and>
    (\<not> prefix od q \<and> (fs w q \<noteq> None \<or> \<not> prefix q od) \<longrightarrow> fs w' q = fs w q) \<and>
    (((\<exists>er. r = Err (Wrapped ''failed to create overlay directory'' er)) \<or>
        r = Err ErrMountFailed \<or> r = Err ErrPermissionDenied) \<and>
       fault e (RemoveAll od) = None \<and> (\<forall>q\<in>mounts w. \<not> prefix od q) \<and> prefix od q
         \<longrightarrow> fs w' q = None)"
  using run
proof (cases rule: CreateOverlay_cases)
  case early
  then show ?thesis by auto
next
  case (mkdir_failed dir er w1)
  note cl = create_failure_cleanup[OF mkdir_failed(1) mkdir_failed(4)]
  from cl(1) cl(2)[of q] cl(3)[of q] mkdir_failed(3)
  show ?thesis unfolding od_def by blast
next
  case (mount_failed w1 er mt)
  note cl = create_failure_cleanup[OF mount_failed(1) mount_failed(5)]
  from cl(1) cl(2)[of q] cl(3)[of q] mount_failed(4)
  show ?thesis unfolding od_def by blast
next
  case (created mt w1 w2)
  with nok show ?thesis by simp
qed

lemma odir0_eq: "Join_at (BaseDir manager0) [take 12 cid0 @ ''_'' @ show_int 7] = odir0"
  by (simp add: overlay_eval overlay_scenario_defs)

lemma create_no_mount_returns:
  "\<exists>w'. CreateOverlay env_no_mount 7 7 manager0 oworld0 cid0 config0
          = (Err ErrPermissionDenied, manager0, w')"
  by (simp add: overlay_eval overlay_scenario_defs)


subsection \<open>The state file and the recovery pass\<close>


lemma persistState_persists:
  assumes "state_file_writable e m w"
  shows "persisted m (snd (persistState e m w))"
  using assms
  by (auto simp: state_file_writable_def persisted_def persistState_def os_Remove_def
      os_WriteFile_def split: option.splits)

lemma state_file_writable_cong:
  assumes "state_file_writable e m w"
      and "BaseDir m' = BaseDir m"
      and "fs w' (statePath m) = fs w (statePath m)" and "fs w' (BaseDir m) = fs w (BaseDir m)"
      and "statePath m \<notin> mounts w'"
  shows "state_file_writable e m' w'"
  using assms by (auto simp: state_file_writable_def is_dir_def)

lemma cleanup_each_frame:
  assumes "cleanup_each e base w reg lastErr = (r, w')"
  shows "mounts w' \<subseteq> mounts w \<and> (\<forall>q. fs w q = None \<longrightarrow> fs w' q = None)"
  using assms
proof (induction reg arbitrary: w lastErr)
  case Nil
  then show ?case by simp
next
  case (Cons a reg)
  obtain c mt where a: "a = (c, mt)" by (cases a)
  obtain r1 w1 where cm: "cleanupMount e base w mt = (r1, w1)"
    by (cases "cleanupMount e base w mt")
  from Cons.prems a cm obtain le where "cleanup_each e base w1 reg le = (r, w')"
    by (cases r1) auto
  have keep: "\<forall>q. fs w q = None \<longrightarrow> fs w1 q = None"
    using cleanupMount_frame(4)[OF cm] by blast
  from Cons.IH[OF \<open>cleanup_each e base w1 reg le = (r, w')\<close>] cleanupMount_frame(1)[OF cm] keep
  show ?case by blast
qed

lemma recover_each_frame:
  assumes "recover_each e base w st = (r, w')"
  shows "mounts w' \<subseteq> mounts w \<and> (\<forall>q. fs w q = None \<longrightarrow> fs w' q = None)"
  using assms
proof (induction st arbitrary: w r w')
  case Nil
  then show ?case by simp
next
  case (Cons a st)
  obtain c mo where a: "a = (c, mo)" by (cases a)
  show ?case
  proof (cases mo)
    case None
    with Cons.prems a show ?thesis by simp
  next
    case (Some mount)
    obtain r1 w1 where cm: "cleanupMount e base w mount = (r1, w1)"
      by (cases "cleanupMount e base w mount")
    obtain r2 w2 where re: "recover_each e base w1 st = (r2, w2)"
      by (cases "recover_each e base w1 st")
    from Cons.prems a Some cm re have w': "w' = w2" by (auto split: outcome.splits)
    have keep: "\<forall>q. fs w q = None \<longrightarrow> fs w1 q = None"
      using cleanupMount_frame(4)[OF cm] by blast
    from Cons.IH[OF re] cleanupMount_frame(1)[OF cm] keep show ?thesis
      unfolding w' by blast
  qed
qed


lemma RecoverOrphanedMounts_cases:
  assumes run: "RecoverOrphanedMounts e m w = (r, m', w')"
  obtains
    (missing) "os_ReadFile e w (statePath m) = Inl ENOENT" "r = Ok []" "m' = m" "w' = w"
  | (unreadable) er where "os_ReadFile e w (statePath m) = Inl er" "er \<noteq> ENOENT"
      "\<forall>failed. r \<noteq> Ok failed" "m' = m" "w' = w"
  | (malformed) b where "os_ReadFile e w (statePath m) = Inr (Raw b)" "r = Ok []" "m' = m"
      "w' = snd (os_Remove e w (statePath m))"
  | (recovered) st failed w1 where "os_ReadFile e w (statePath m) = Inr (StateJSON st)"
      "recover_each e (BaseDir m) w st = (Ok failed, w1)" "r = Ok failed" "m' = m"
      "w' = snd (os_Remove e w1 (statePath m))"
  | (panicked) st where "os_ReadFile e w (statePath m) = Inr (StateJSON st)"
      "recover_each e (BaseDir m) w st = (r, w')" "\<forall>failed. r \<noteq> Ok failed" "m' = m"
proof (cases "os_ReadFile e w (statePath m)")
  case (Inl er)
  show ?thesis
  proof (cases "er = ENOENT")
    case True
    with run Inl have "r = Ok []" "m' = m" "w' = w"
      by (simp_all add: RecoverOrphanedMounts_def IsNotExist_def del: statePath_eq)
    with Inl True show ?thesis by (intro missing) simp_all
  next
    case False
    with run Inl have "\<forall>failed. r \<noteq> Ok failed" "m' = m" "w' = w"
      by (auto simp: RecoverOrphanedMounts_def IsNotExist_def simp del: statePath_eq)
    with Inl False show ?thesis by (intro unreadable) simp_all
  qed
next
  case (Inr data)
  show ?thesis
  proof (cases data)
    case (Raw b)
    with run Inr have "r = Ok []" "m' = m" "w' = snd (os_Remove e w (statePath m))"
      by (auto simp: RecoverOrphanedMounts_def json_Unmarshal_def simp del: statePath_eq)
    with Inr Raw show ?thesis by (intro malformed) simp_all
  next
    case (StateJSON st)
    obtain r1 w1 where re: "recover_each e (BaseDir m) w st = (r1, w1)"
      by (cases "recover_each e (BaseDir m) w st")
    show ?thesis
    proof (cases r1)
      case (Ok failed)
      with run Inr StateJSON re have "r = Ok failed" "m' = m"
        "w' = snd (os_Remove e w1 (statePath m))"
        by (auto simp: RecoverOrphanedMounts_def json_Unmarshal_def simp del: statePath_eq)
      with Inr StateJSON re Ok show ?thesis by (intro recovered) simp_all
    next
      case (Err er)
      with run Inr StateJSON re have "r = r1" "m' = m" "w' = w1"
        by (auto simp: RecoverOrphanedMounts_def json_Unmarshal_def simp del: statePath_eq)
      with Inr StateJSON re Err show ?thesis by (intro panicked) simp_all
    next
      case Panic
      with run Inr StateJSON re have "r = r1" "m' = m" "w' = w1"
        by (auto simp: RecoverOrphanedMounts_def json_Unmarshal_def simp del: statePath_eq)
      with Inr StateJSON re Panic show ?thesis by (intro panicked) simp_all
    qed
  qed
qed

lemma os_Remove_absent_after:
  assumes "fault e (Remove p) = None" and "p \<notin> mounts w"
  shows "fs (snd (os_Remove e w p)) p = None"
  using assms by (simp add: os_Remove_def)


lemma AList_update_nonempty [simp]: "AList.update k v xs \<noteq> []"
  by (cases xs) (auto split: if_splits)

lemma CreateOverlay_persists:
  assumes wr: "state_file_writable e m w"
      and run: "CreateOverlay e t created m w c config = (Ok mt, m', w')"
      and nest: "\<not> prefix (statePath m) (overlayDir_of (BaseDir m) mt)"
  shows "persisted m' w'"
  using run
proof (cases rule: CreateOverlay_cases)
  case (created mt' w1 w2)
  let ?od = "Join_at (BaseDir m) [take 12 c @ ''_'' @ show_int t]"
  from created have mt: "mt' = mt" by simp
  with created(4) have od: "overlayDir_of (BaseDir m) mt = ?od" by (simp add: overlayDir_of_def)
  note f = mkdir_each_frame[OF created(5)]
  from created(6) have w2: "fs w2 = fs w1" "mounts w2 = insert (MergedDir mt') (mounts w1)"
    by (auto simp: mountOverlay_def sys_Mount_def split: option.splits if_splits)
  have sp1: "fs w1 (statePath m) = fs w (statePath m)"
  proof -
    have "\<forall>d\<in>set [?od @ [''upper''], ?od @ [''work''], ?od @ [''merged'']]. \<not> prefix (statePath m) d"
      using nest od by (auto simp: prefix_snoc)
    with f show ?thesis by blast
  qed
  have b1: "fs w1 (BaseDir m) = fs w (BaseDir m) \<or> BaseDir m = []"
    using wr f by (auto simp: state_file_writable_def is_dir_def)
  have "state_file_writable e m' w2"
    using wr sp1 b1 w2 f created(2,7)
    by (auto simp: state_file_writable_def is_dir_def)
  from persistState_persists[OF this] created(3) show ?thesis by simp
qed simp_all

lemma CleanupOverlay_persists:
  assumes wr: "state_file_writable e m w"
      and reg: "map_of (overlays m) c = Some mt"
      and run: "CleanupOverlay e m w c = (None, m', w')"
      and nest: "\<not> prefix (overlayDir_of (BaseDir m) mt) (statePath m)"
  shows "persisted m' w'"
  using reg run
proof (cases rule: CleanupOverlay_cases)
  case (failed er)
  then show ?thesis by simp
next
  case (cleaned w1)
  note f = cleanupMount_frame[OF cleaned(1)]
  from nest have nb: "\<not> prefix (overlayDir_of (BaseDir m) mt) (BaseDir m)"
    by (auto simp: prefix_snoc)
  have "state_file_writable e m' w1"
    using wr f(1) f(2)[OF nest] f(2)[OF nb] cleaned(3)
    by (auto simp: state_file_writable_def is_dir_def)
  from persistState_persists[OF this] cleaned(3,4) show ?thesis by simp
qed

lemma CleanupAll_persists:
  assumes wr: "state_file_writable e m w" and run: "CleanupAll e m w = (r, m', w')"
  shows "overlays m' = [] \<and> persisted m' w'"
proof -
  obtain w1 where ce: "cleanup_each e (BaseDir m) w (overlays m) None = (r, w1)"
    and m': "m' = m\<lparr>overlays := []\<rparr>" and w': "w' = snd (os_Remove e w1 (statePath m))"
    using run by (auto simp: CleanupAll_def split: prod.splits simp del: statePath_eq)
  from cleanup_each_frame[OF ce] wr have "statePath m \<notin> mounts w1"
    by (auto simp: state_file_writable_def)
  with wr have "fs w' (statePath m) = None"
    unfolding w' by (intro os_Remove_absent_after) (auto simp: state_file_writable_def)
  with m' show ?thesis by (simp add: persisted_def)
qed

lemma Recover_state_file_gone:
  assumes run: "RecoverOrphanedMounts e m w = (Ok failed, m', w')"
      and ok: "fault e (ReadFile (statePath m)) = None" "fault e (Remove (statePath m)) = None"
        "statePath m \<notin> mounts w"
  shows "fs w' (statePath m) = None"
  using run
proof (cases rule: RecoverOrphanedMounts_cases)
  case missing
  with ok(1) show ?thesis
    by (auto simp: os_ReadFile_def split: option.splits node.splits simp del: statePath_eq)
next
  case (unreadable er)
  then show ?thesis by simp
next
  case (malformed b)
  with ok show ?thesis by (simp add: os_Remove_absent_after del: statePath_eq)
next
  case (recovered st failed' w1)
  from recover_each_frame[OF recovered(2)] ok(3) have "statePath m \<notin> mounts w1" by auto
  with recovered(5) ok(2) show ?thesis by (simp add: os_Remove_absent_after del: statePath_eq)
next
  case (panicked st)
  then show ?thesis by simp
qed

lemma create_ok_state:
  "\<exists>w'. CreateOverlay env_ok 7 7 manager0 oworld0 cid0 config0 = (Ok mount0, manager1, w')"
  by (simp add: overlay_eval overlay_scenario_defs)

lemma cleanup_ok_returns:
  "\<exists>w'. CleanupOverlay env_ok manager1 oworld1 cid0 = (None, manager0, w')"
  by (simp add: overlay_eval overlay_scenario_defs)

lemma cleanup_all_returns:
  "\<exists>w'. CleanupAll env_ok manager1 oworld1 = (None, manager0, w')"
  by (simp add: overlay_eval overlay_scenario_defs)

lemma recover_ok_returns:
  "\<exists>w'. RecoverOrphanedMounts env_ok manager0 oworld1 = (Ok [], manager0, w')"
  by (simp add: overlay_eval overlay_scenario_defs)



section \<open>The fetcher's claims\<close>

lemmas snapshot_eval =
  EnsureSnapshot_def resolve_block_def snapshotDir_of_def
  filepath_Join_def Join_at_def clean_step_def
  ToLower_def isASCII_def mapClientName_def os_Stat_def downloadSnapshot_def os_MkdirAll_def is_file_def
  range_request_def client_Do_def os_Create_def is_dir_def io_Copy_def os_Remove_def
  os_WriteFile_def os_RemoveAll_def os_OpenAppend_def Size_def
  extractTarZst_def SnapshotFileName_def baseURL_of_def Let_def

lemma fresh_fetch_returns:
  "\<exists>w'. EnsureSnapshot env_ok fetcher0 world_empty cfg100 = Some (Inr (entry100 @ [''data'']), w')"
  by (simp add: snapshot_eval scenario_defs downloadFile.simps)





text \<open>Requests are only ever added to the log.\<close>

lemma downloadSnapshot_requests:
  assumes "downloadSnapshot e w base net cl blk d = Some (r, w')"
  shows "prefix (requests w) (requests w')"
  using assms
proof (cases rule: downloadSnapshot_stages)
  case (mkdir_fail er)
  then show ?thesis using os_MkdirAll_frame(2)[OF mkdir_fail(1)] by simp
next
  case (download_fail w1 er)
  then show ?thesis
    using os_MkdirAll_frame(2)[OF download_fail(1)] downloadFile_frame(4)[OF download_fail(2)]
    by simp
next
  case (mkdir_data_fail w1 w2 er)
  then show ?thesis
    using os_MkdirAll_frame(2)[OF mkdir_data_fail(1)] downloadFile_frame(4)[OF mkdir_data_fail(2)]
      os_MkdirAll_frame(2)[OF mkdir_data_fail(3)] by simp
next
  case (extract_fail w1 w2 w3 w4 er)
  obtain r5 w5 where ra: "os_RemoveAll e w4 (d @ [''data'']) = (r5, w5)"
    by (cases "os_RemoveAll e w4 (d @ [''data''])")
  show ?thesis
    using os_MkdirAll_frame(2)[OF extract_fail(1)] downloadFile_frame(4)[OF extract_fail(2)]
      os_MkdirAll_frame(2)[OF extract_fail(3)] extractTarZst_frame(2)[OF extract_fail(4)]
      os_RemoveAll_frame(2)[OF ra] extract_fail(5) ra by simp
next
  case (success w1 w2 w3 w4)
  obtain r5 w5 where rm: "os_Remove e w4 (d @ [SnapshotFileName]) = (r5, w5)"
    by (cases "os_Remove e w4 (d @ [SnapshotFileName])")
  obtain r6 w6 where wf: "os_WriteFile e w5 (d @ [''.complete'']) (now_rfc3339 e) = (r6, w6)"
    by (cases "os_WriteFile e w5 (d @ [''.complete'']) (now_rfc3339 e)")
  show ?thesis
    using os_MkdirAll_frame(2)[OF success(1)] downloadFile_frame(4)[OF success(2)]
      os_MkdirAll_frame(2)[OF success(3)] extractTarZst_frame(2)[OF success(4)]
      os_Remove_frame(2)[OF rm] os_WriteFile_frame(2)[OF wf] success(5) rm wf by simp
qed

lemma EnsureSnapshot_requests:
  assumes "resolve_block e f w cfg = (rb, w1)" and "EnsureSnapshot e f w cfg = Some (r, w')"
  shows "prefix (requests w1) (requests w')"
proof (cases rb)
  case (Inl er)
  with assms show ?thesis by (simp add: EnsureSnapshot_def)
next
  case (Inr blk)
  let ?d = "snapshotDir_of e f cfg blk"
  show ?thesis
  proof (cases "os_Stat e w1 (?d @ [''.complete''])")
    case (Inr st)
    with assms \<open>rb = Inr blk\<close> show ?thesis by (simp add: EnsureSnapshot_def Let_def)
  next
    case (Inl er)
    with assms \<open>rb = Inr blk\<close> obtain r2 where
      "downloadSnapshot e w1 (baseURL_of f cfg) (ToLower e (Network cfg))
        (ToLower e (mapClientName e (Client cfg))) blk ?d = Some (r2, w')"
      by (auto simp: EnsureSnapshot_def Let_def split: option.splits)
    then show ?thesis by (rule downloadSnapshot_requests)
  qed
qed

lemma snapshotDir_of_cong:
  "unicode_ToLower e2 = unicode_ToLower e \<Longrightarrow> snapshotDir_of e2 f cfg blk = snapshotDir_of e f cfg blk"
proof -
  assume a: "unicode_ToLower e2 = unicode_ToLower e"
  then have l: "ToLower e2 = ToLower e" by (auto simp: ToLower_def fun_eq_iff)
  then have "mapClientName e2 = mapClientName e" by (simp add: mapClientName_def fun_eq_iff)
  with l show ?thesis by (simp add: snapshotDir_of_def)
qed

text \<open>
  The first step for the block number \<open>latest\<close> (or none): when the request cannot
  be built nothing is sent and the error is returned; otherwise the request is sent.
\<close>

lemma resolve_block_latest:
  assumes "BlockNumber cfg = [] \<or> BlockNumber cfg = ''latest''"
      and "resolve_block e f w cfg = (rb, w1)"
  shows "url_invalid e (latestURL_of e f cfg) \<Longrightarrow>
           rb = Inl (Wrapped ''failed to resolve latest block'' RequestError) \<and> w1 = w"
    and "\<not> url_invalid e (latestURL_of e f cfg) \<Longrightarrow>
           w1 = w\<lparr>requests := requests w @ [\<lparr>url = latestURL_of e f cfg, range_from = None\<rparr>]\<rparr>"
  using assms
  by (auto simp: resolve_block_def resolveLatestBlock_def latestURL_of_def client_Do_def Let_def
      split: if_splits response.splits sum.splits prod.splits)

text \<open>
  Claim C2, as the code has it. For a configuration with a concrete block number
  (neither empty nor \<open>latest\<close>): when the marker of its entry exists and \<open>os.Stat\<close> of
  the marker does not fail, \<open>EnsureSnapshot\<close> returns the entry's \<open>data\<close> path and leaves
  the world as it was: no request is sent and no file is touched. Hence, after a call
  that returned a path and whose marker write did not fail, a second call (in any
  environment that lower-cases alike) returns the same path and changes nothing. For the block number \<open>latest\<close> (or none) the call
  begins with the request to the \<open>latest\<close> endpoint, before the marker is looked at:
  when that request cannot be built, the call returns the error and sends nothing;
  otherwise the request is the first one sent, and when the marker of the resolved
  block exists the call returns the \<open>data\<close> path of that block, having sent this one
  request and changed no file.
\<close>

theorem C2_cache_hit:
  "(BlockNumber cfg \<noteq> [] \<and> BlockNumber cfg \<noteq> ''latest'' \<longrightarrow>
      (fs w (snapshotDir_of e f cfg (BlockNumber cfg) @ [''.complete'']) \<noteq> None \<and>
       fault e (Stat (snapshotDir_of e f cfg (BlockNumber cfg) @ [''.complete''])) = None
         \<longrightarrow> EnsureSnapshot e f w cfg =
               Some (Inr (snapshotDir_of e f cfg (BlockNumber cfg) @ [''data'']), w)) \<and>
      (\<forall>p w'. EnsureSnapshot e f w cfg = Some (Inr p, w') \<and>
         fault e (WriteFile (snapshotDir_of e f cfg (BlockNumber cfg) @ [''.complete''])) = None \<and>
         fs w (snapshotDir_of e f cfg (BlockNumber cfg) @ [''.complete'']) \<noteq> Some Dir \<and>
         unicode_ToLower e2 = unicode_ToLower e \<and>
         fault e2 (Stat (snapshotDir_of e f cfg (BlockNumber cfg) @ [''.complete''])) = None
         \<longrightarrow> EnsureSnapshot e2 f w' cfg = Some (Inr p, w'))) \<and>
   (BlockNumber cfg = [] \<or> BlockNumber cfg = ''latest'' \<longrightarrow>
      (url_invalid e (latestURL_of e f cfg) \<longrightarrow>
         EnsureSnapshot e f w cfg =
           Some (Inl (Wrapped ''failed to resolve latest block'' RequestError), w)) \<and>
      (\<not> url_invalid e (latestURL_of e f cfg) \<longrightarrow>
         (\<forall>r w'. EnsureSnapshot e f w cfg = Some (r, w') \<longrightarrow>
            prefix (requests w @ [\<lparr>url = latestURL_of e f cfg, range_from = None\<rparr>]) (requests w')) \<and>
         (\<forall>blk w1. resolve_block e f w cfg = (Inr blk, w1) \<and>
            fs w (snapshotDir_of e f cfg blk @ [''.complete'']) \<noteq> None \<and>
            fault e (Stat (snapshotDir_of e f cfg blk @ [''.complete''])) = None
            \<longrightarrow> EnsureSnapshot e f w cfg =
                  Some (Inr (snapshotDir_of e f cfg blk @ [''data'']),
                        w\<lparr>requests := requests w @ [\<lparr>url = latestURL_of e f cfg, range_from = None\<rparr>]\<rparr>))))"
proof (intro conjI allI impI)
  assume b: "BlockNumber cfg \<noteq> [] \<and> BlockNumber cfg \<noteq> ''latest''"
    and "fs w (snapshotDir_of e f cfg (BlockNumber cfg) @ [''.complete'']) \<noteq> None \<and>
          fault e (Stat (snapshotDir_of e f cfg (BlockNumber cfg) @ [''.complete''])) = None"
  with ensure_cache_hit[OF resolve_block_concrete]
  show "EnsureSnapshot e f w cfg =
          Some (Inr (snapshotDir_of e f cfg (BlockNumber cfg) @ [''data'']), w)"
    by blast
next
  fix p w'
  assume b: "BlockNumber cfg \<noteq> [] \<and> BlockNumber cfg \<noteq> ''latest''"
    and a: "EnsureSnapshot e f w cfg = Some (Inr p, w') \<and>
            fault e (WriteFile (snapshotDir_of e f cfg (BlockNumber cfg) @ [''.complete''])) = None \<and>
            fs w (snapshotDir_of e f cfg (BlockNumber cfg) @ [''.complete'']) \<noteq> Some Dir \<and>
            unicode_ToLower e2 = unicode_ToLower e \<and>
            fault e2 (Stat (snapshotDir_of e f cfg (BlockNumber cfg) @ [''.complete''])) = None"
  from b have rb: "resolve_block e0 f w0 cfg = (Inr (BlockNumber cfg), w0)" for w0 e0
    by (simp add: resolve_block_concrete)
  from a have sd: "snapshotDir_of e2 f cfg blk = snapshotDir_of e f cfg blk" for blk
    by (rule_tac snapshotDir_of_cong) simp
  have m: "fs w' (snapshotDir_of e f cfg (BlockNumber cfg) @ [''.complete'']) \<noteq> None"
    and p: "p = snapshotDir_of e f cfg (BlockNumber cfg) @ [''data'']"
    using ensure_marker_after[OF rb] a by blast+
  from ensure_cache_hit[where e = e2 and w = w', OF rb] m a p sd
  show "EnsureSnapshot e2 f w' cfg = Some (Inr p, w')" by simp
next
  assume l: "BlockNumber cfg = [] \<or> BlockNumber cfg = ''latest''"
    and inv: "url_invalid e (latestURL_of e f cfg)"
  obtain rb w1 where rb: "resolve_block e f w cfg = (rb, w1)"
    by (cases "resolve_block e f w cfg")
  from resolve_block_latest(1)[OF l rb inv] rb
  show "EnsureSnapshot e f w cfg =
           Some (Inl (Wrapped ''failed to resolve latest block'' RequestError), w)"
    by (simp add: EnsureSnapshot_def)
next
  fix r w'
  assume l: "BlockNumber cfg = [] \<or> BlockNumber cfg = ''latest''"
    and ok: "\<not> url_invalid e (latestURL_of e f cfg)"
    and run: "EnsureSnapshot e f w cfg = Some (r, w')"
  obtain rb w1 where rb: "resolve_block e f w cfg = (rb, w1)"
    by (cases "resolve_block e f w cfg")
  from resolve_block_latest(2)[OF l rb ok] EnsureSnapshot_requests[OF rb run]
  show "prefix (requests w @ [\<lparr>url = latestURL_of e f cfg, range_from = None\<rparr>]) (requests w')"
    by simp
next
  fix blk w1
  assume l: "BlockNumber cfg = [] \<or> BlockNumber cfg = ''latest''"
    and ok: "\<not> url_invalid e (latestURL_of e f cfg)"
    and h: "resolve_block e f w cfg = (Inr blk, w1) \<and>
            fs w (snapshotDir_of e f cfg blk @ [''.complete'']) \<noteq> None \<and>
            fault e (Stat (snapshotDir_of e f cfg blk @ [''.complete''])) = None"
  from h have rb: "resolve_block e f w cfg = (Inr blk, w1)" by simp
  from ensure_cache_hit[OF rb] h resolve_block_latest(2)[OF l rb ok]
  show "EnsureSnapshot e f w cfg =
          Some (Inr (snapshotDir_of e f cfg blk @ [''data'']),
                w\<lparr>requests := requests w @ [\<lparr>url = latestURL_of e f cfg, range_from = None\<rparr>]\<rparr>)"
    by simp
qed

lemma latest_hit_returns:
  "resolve_block env_latest200 fetcher0 world_cached cfg_latest =
     (Inr ''200'',
      world_cached\<lparr>requests := [\<lparr>url = ''http://srv/mainnet/geth/latest'', range_from = None\<rparr>]\<rparr>)"
  by (simp add: snapshot_eval scenario_defs resolveLatestBlock_def TrimSpace_def white_space_def
      trim_left.simps)

theorem C2_cache_hit_witness:
  "(\<exists>w'. EnsureSnapshot env_ok fetcher0 world_empty cfg100 = Some (Inr (entry100 @ [''data'']), w') \<and>
         EnsureSnapshot env_ok fetcher0 w' cfg100 = Some (Inr (entry100 @ [''data'']), w')) \<and>
   EnsureSnapshot env_latest200 fetcher0 world_cached cfg_latest =
     Some (Inr (entry200 @ [''data'']),
           world_cached\<lparr>requests := [\<lparr>url = ''http://srv/mainnet/geth/latest'', range_from = None\<rparr>]\<rparr>) \<and>
   EnsureSnapshot (env_ok\<lparr>url_invalid := (\<lambda>u. True)\<rparr>) fetcher0 world_cached cfg_latest =
     Some (Inl (Wrapped ''failed to resolve latest block'' RequestError), world_cached)"
proof (intro conjI)
  obtain w' where run:
    "EnsureSnapshot env_ok fetcher0 world_empty cfg100 = Some (Inr (entry100 @ [''data'']), w')"
    using fresh_fetch_returns by blast
  have sd: "snapshotDir_of env_ok fetcher0 cfg100 (BlockNumber cfg100) = entry100"
    by (simp add: snapshot_eval scenario_defs)
  have b: "BlockNumber cfg100 \<noteq> [] \<and> BlockNumber cfg100 \<noteq> ''latest''"
    by (simp_all add: cfg100_def)
  have h: "fault env_ok (WriteFile (entry100 @ [''.complete''])) = None"
    "fs world_empty (entry100 @ [''.complete'']) \<noteq> Some Dir"
    "fault env_ok (Stat (entry100 @ [''.complete''])) = None"
    by (simp_all add: scenario_defs)
  from C2_cache_hit[of cfg100 world_empty env_ok fetcher0 env_ok] run h sd b
  show "\<exists>w'. EnsureSnapshot env_ok fetcher0 world_empty cfg100 = Some (Inr (entry100 @ [''data'']), w') \<and>
         EnsureSnapshot env_ok fetcher0 w' cfg100 = Some (Inr (entry100 @ [''data'']), w')"
    by auto
next
  have l: "BlockNumber cfg_latest = [] \<or> BlockNumber cfg_latest = ''latest''"
    by (simp add: cfg_latest_def)
  have u: "latestURL_of env_latest200 fetcher0 cfg_latest = ''http://srv/mainnet/geth/latest''"
    by (simp add: latestURL_of_def snapshot_eval scenario_defs)
  have ok: "\<not> url_invalid env_latest200 (latestURL_of env_latest200 fetcher0 cfg_latest)"
    by (simp add: scenario_defs)
  have sd: "snapshotDir_of env_latest200 fetcher0 cfg_latest ''200'' = entry200"
    by (simp add: snapshot_eval scenario_defs)
  have h: "fs world_cached (entry200 @ [''.complete'']) \<noteq> None"
    "fault env_latest200 (Stat (entry200 @ [''.complete''])) = None"
    "requests world_cached = []"
    by (simp_all add: scenario_defs)
  from C2_cache_hit[of cfg_latest world_cached env_latest200 fetcher0 env_ok] l ok latest_hit_returns
    h(1,2)[folded sd]
  have "EnsureSnapshot env_latest200 fetcher0 world_cached cfg_latest =
          Some (Inr (snapshotDir_of env_latest200 fetcher0 cfg_latest ''200'' @ [''data'']),
                world_cached\<lparr>requests := requests world_cached @
                  [\<lparr>url = latestURL_of env_latest200 fetcher0 cfg_latest, range_from = None\<rparr>]\<rparr>)"
    by blast
  then show "EnsureSnapshot env_latest200 fetcher0 world_cached cfg_latest =
     Some (Inr (entry200 @ [''data'']),
           world_cached\<lparr>requests := [\<lparr>url = ''http://srv/mainnet/geth/latest'', range_from = None\<rparr>]\<rparr>)"
    by (simp add: sd u h(3))
next
  have l: "BlockNumber cfg_latest = [] \<or> BlockNumber cfg_latest = ''latest''"
    by (simp add: cfg_latest_def)
  have inv: "url_invalid (env_ok\<lparr>url_invalid := (\<lambda>u. True)\<rparr>)
               (latestURL_of (env_ok\<lparr>url_invalid := (\<lambda>u. True)\<rparr>) fetcher0 cfg_latest)"
    by simp
  from C2_cache_hit[of cfg_latest world_cached "env_ok\<lparr>url_invalid := (\<lambda>u. True)\<rparr>" fetcher0 env_ok] l inv
  show "EnsureSnapshot (env_ok\<lparr>url_invalid := (\<lambda>u. True)\<rparr>) fetcher0 world_cached cfg_latest =
     Some (Inl (Wrapped ''failed to resolve latest block'' RequestError), world_cached)"
    by blast
qed

text \<open>
  Claim C2 as stated fails for the block number \<open>latest\<close>: it is resolved by a request
  to the server before the marker is looked at. With complete entries for \<open>latest\<close> and
  for \<open>200\<close> in the cache, the call returns the entry of \<open>200\<close> and has sent one request.
\<close>

theorem C2_counterexample:
  "fs world_cached (snapshotDir_of env_latest200 fetcher0 cfg_latest ''latest'' @ [''.complete'']) \<noteq> None \<and>
   fs world_cached (snapshotDir_of env_latest200 fetcher0 cfg_latest ''200'' @ [''.complete'']) \<noteq> None \<and>
   requests world_cached = [] \<and>
   EnsureSnapshot env_latest200 fetcher0 world_cached cfg_latest =
     Some (Inr (entry200 @ [''data'']),
           world_cached\<lparr>requests := [\<lparr>url = ''http://srv/mainnet/geth/latest'', range_from = None\<rparr>]\<rparr>)"
  by (simp add: snapshot_eval scenario_defs resolveLatestBlock_def TrimSpace_def white_space_def
      trim_left.simps)
lemma downloadFile_416:
  assumes "\<not> url_invalid e u"
      and "server e (length (requests w)) (range_request e u dest w) = Response 416 cl body berr"
  shows "downloadFile e u dest w =
         downloadFile e u dest
           (snd (os_Remove e (w\<lparr>requests := requests w @ [range_request e u dest w]\<rparr>) dest))"
  using assms by (subst downloadFile.simps) (simp add: client_Do_def)

lemma requests_after_Remove [simp]:
  "requests (snd (os_Remove e w p)) = requests w"
  by (cases "os_Remove e w p") (simp add: os_Remove_frame(2))

lemma downloadFile_416_many:
  assumes "\<not> url_invalid e u" and "answers_416 e (length (requests w)) n"
      and "downloadFile e u dest w = Some (r, w')"
  shows "length (requests w) + n < length (requests w')"
  using assms(2,3)
proof (induction n arbitrary: w)
  case 0
  from downloadFile_frame(5)[OF 0(2) assms(1)] show ?case
    by (auto dest!: prefix_length_le)
next
  case (Suc n)
  let ?w1 = "snd (os_Remove e (w\<lparr>requests := requests w @ [range_request e u dest w]\<rparr>) dest)"
  from Suc(2) obtain cl body berr where
    "server e (length (requests w)) (range_request e u dest w) = Response 416 cl body berr"
    unfolding answers_416_def by (metis add.right_neutral zero_less_Suc)
  from downloadFile_416[OF assms(1) this] Suc(3)
  have run: "downloadFile e u dest ?w1 = Some (r, w')" by simp
  have len: "length (requests ?w1) = Suc (length (requests w))" by simp
  have "answers_416 e (length (requests ?w1)) n"
    using Suc(2) unfolding answers_416_def len
    by (metis Suc_less_eq add_Suc_shift)
  from Suc.IH[OF this run] len show ?case by simp
qed


lemma range_request_absent:
  "fs w dest = None \<Longrightarrow> range_request e u dest w = \<lparr>url = u, range_from = None\<rparr>"
  by (simp add: range_request_def os_Stat_def split: option.splits)

lemma os_Remove_gone:
  "fault e (Remove p) = None \<Longrightarrow> p \<notin> mounts w \<Longrightarrow> fs (snd (os_Remove e w p)) p = None"
  by (simp add: os_Remove_def)

lemma download_416_twice_returns:
  "\<exists>w'. downloadFile env_416_twice ''http://srv/a'' (entry100 @ [SnapshotFileName]) world_partial
         = Some (None, w')"
  by (simp add: downloadFile.simps snapshot_eval scenario_defs)

text \<open>
  Claim C3, as the code has it. On status 416 \<open>downloadFile\<close> removes the local file
  (dropping the result of \<open>os.Remove\<close>) and calls itself again; nothing counts the
  calls. So when the server answers the next \<open>n\<close> requests with 416, a run that
  returns has sent more than \<open>n\<close> requests; the run continues as a download started
  after the removal; and when the removal does not fail, the second request carries no
  \<open>Range\<close> header (the download starts from scratch).
\<close>

theorem C3_retry_on_416:
  assumes "\<not> url_invalid e u"
      and "answers_416 e (length (requests w)) n"
      and "downloadFile e u dest w = Some (r, w')"
  shows "length (requests w) + n < length (requests w') \<and>
         (0 < n \<longrightarrow>
            downloadFile e u dest w =
            downloadFile e u dest
              (snd (os_Remove e (w\<lparr>requests := requests w @ [range_request e u dest w]\<rparr>) dest))) \<and>
         (0 < n \<and> fault e (Remove dest) = None \<and> dest \<notin> mounts w \<longrightarrow>
            requests w' ! Suc (length (requests w)) = \<lparr>url = u, range_from = None\<rparr>)"
proof (intro conjI impI)
  show "length (requests w) + n < length (requests w')"
    by (rule downloadFile_416_many[OF assms])
next
  assume "0 < n"
  with assms(2) obtain cl body berr where
    "server e (length (requests w)) (range_request e u dest w) = Response 416 cl body berr"
    unfolding answers_416_def by (metis add.right_neutral)
  from downloadFile_416[OF assms(1) this]
  show "downloadFile e u dest w =
        downloadFile e u dest
          (snd (os_Remove e (w\<lparr>requests := requests w @ [range_request e u dest w]\<rparr>) dest))" .
next
  let ?w1 = "w\<lparr>requests := requests w @ [range_request e u dest w]\<rparr>"
  let ?w3 = "snd (os_Remove e ?w1 dest)"
  assume a: "0 < n \<and> fault e (Remove dest) = None \<and> dest \<notin> mounts w"
  with assms(2) obtain cl body berr where
    "server e (length (requests w)) (range_request e u dest w) = Response 416 cl body berr"
    unfolding answers_416_def by (metis add.right_neutral)
  from downloadFile_416[OF assms(1) this] assms(3)
  have run: "downloadFile e u dest ?w3 = Some (r, w')" by simp
  have gone: "fs ?w3 dest = None"
    using a by (intro os_Remove_gone) simp_all
  have "prefix (requests ?w3 @ [range_request e u dest ?w3]) (requests w')"
    by (rule downloadFile_frame(5)[OF run assms(1)])
  then obtain zs where "requests w' = (requests ?w3 @ [range_request e u dest ?w3]) @ zs"
    by (auto simp: prefix_def)
  then have "requests w' ! Suc (length (requests w)) = range_request e u dest ?w3"
    by (simp add: nth_append)
  with range_request_absent[OF gone]
  show "requests w' ! Suc (length (requests w)) = \<lparr>url = u, range_from = None\<rparr>" by simp
qed

theorem C3_retry_on_416_witness:
  "\<exists>w'. downloadFile env_416_twice ''http://srv/a'' (entry100 @ [SnapshotFileName]) world_partial
         = Some (None, w') \<and>
        2 < length (requests w') \<and>
        requests w' ! 1 = \<lparr>url = ''http://srv/a'', range_from = None\<rparr>"
proof -
  obtain w' where run:
    "downloadFile env_416_twice ''http://srv/a'' (entry100 @ [SnapshotFileName]) world_partial
       = Some (None, w')"
    using download_416_twice_returns by blast
  have h: "\<not> url_invalid env_416_twice ''http://srv/a''"
    "answers_416 env_416_twice (length (requests world_partial)) 2"
    "fault env_416_twice (Remove (entry100 @ [SnapshotFileName])) = None"
    "entry100 @ [SnapshotFileName] \<notin> mounts world_partial"
    "length (requests world_partial) = 0"
    by (auto simp: scenario_defs answers_416_def)
  from C3_retry_on_416[OF h(1,2) run] h(3,4)
  have c: "length (requests world_partial) + 2 < length (requests w')"
    and d: "requests w' ! Suc (length (requests world_partial)) =
            \<lparr>url = ''http://srv/a'', range_from = None\<rparr>"
    by simp_all
  from run c d h(5) show ?thesis by (intro exI[of _ w']) simp
qed

text \<open>
  Claim C3 as stated fails: after a second 416 the download does not fail but asks a
  third time. With an archive of three bytes and a server that answers 416 twice and
  then sends the file, the call returns without an error after three requests.
\<close>

theorem C3_counterexample:
  "downloadFile env_416_twice ''http://srv/a'' (entry100 @ [SnapshotFileName]) world_partial \<noteq> None \<and>
   fst (the (downloadFile env_416_twice ''http://srv/a'' (entry100 @ [SnapshotFileName]) world_partial))
     = None \<and>
   requests (snd (the (downloadFile env_416_twice ''http://srv/a'' (entry100 @ [SnapshotFileName])
       world_partial)))
     = [\<lparr>url = ''http://srv/a'', range_from = Some 3\<rparr>,
        \<lparr>url = ''http://srv/a'', range_from = None\<rparr>,
        \<lparr>url = ''http://srv/a'', range_from = None\<rparr>] \<and>
   fs (snd (the (downloadFile env_416_twice ''http://srv/a'' (entry100 @ [SnapshotFileName])
       world_partial))) (entry100 @ [SnapshotFileName]) = Some (File ''xyz'')"
  by (simp add: downloadFile.simps snapshot_eval scenario_defs)












lemma mounts_after [simp]:
  "mounts (snd (os_MkdirAll e w p)) = mounts w"
  "mounts (snd (os_Remove e w p)) = mounts w"
  "mounts (snd (os_RemoveAll e w p)) = mounts w"
  "mounts (snd (os_WriteFile e w p c)) = mounts w"
  "mounts (snd (os_Create e w2 p)) = mounts w2"
  "mounts (snd (io_Copy e w2 p body berr)) = mounts w2"
  "mounts (snd (client_Do e w rq)) = mounts w"
  "mounts (snd (extractTarZst e w2 a d)) = mounts w2"
  by (auto simp: os_MkdirAll_def os_Remove_def os_RemoveAll_def os_WriteFile_def os_Create_def
      io_Copy_def client_Do_def extractTarZst_def Let_def split: option.splits prod.splits node.splits)

lemma hivesim_downloadFile_mounts [simp]:
  "mounts (snd (hivesim_downloadFile e u dest w)) = mounts w"
  by (simp add: hivesim_downloadFile_def case_prod_beta split: response.split option.split)

lemma hivesim_extractTarZst_mounts [simp]:
  "mounts (snd (hivesim_extractTarZst e w a d)) = mounts w"
  by (simp add: hivesim_extractTarZst_def case_prod_beta split: option.split)













section \<open>The overlay manager's claims\<close>

text \<open>
  Claim C5, as the code has it. \<open>CreateOverlay\<close> returns \<open>ErrOverlayExists\<close> for a
  registered container; for one that is not registered it returns
  \<open>ErrSnapshotNotFound\<close> when \<open>os.Stat\<close> reports that the snapshot path does not exist
  and \<open>ErrSnapshotNotDirectory\<close> when the path is a file; in these cases nothing
  changes. Whenever it does not return a mount, the registry and the mount table are
  unchanged, no existing node outside the new overlay's directory has changed, and
  outside that directory only missing ancestors of it may have been created. After a
  failure to create a directory or to mount, nothing is left at or below the overlay's
  directory provided \<open>os.RemoveAll\<close> does not fail: its result is dropped.
\<close>

theorem C5_create_overlay_errors:
  defines "od \<equiv> (\<lambda>m c t. Join_at (BaseDir m) [take 12 c @ ''_'' @ show_int t])"
  shows
  "(map_of (overlays m) c \<noteq> None
      \<longrightarrow> CreateOverlay e t created m w c config = (Err ErrOverlayExists, m, w)) \<and>
   (map_of (overlays m) c = None \<and> os_Stat e w (SnapshotPath config) = Inl ENOENT
      \<longrightarrow> CreateOverlay e t created m w c config = (Err ErrSnapshotNotFound, m, w)) \<and>
   (map_of (overlays m) c = None \<and> (\<exists>x. os_Stat e w (SnapshotPath config) = Inr (File x))
      \<longrightarrow> CreateOverlay e t created m w c config = (Err ErrSnapshotNotDirectory, m, w)) \<and>
   (\<forall>r m' w'. CreateOverlay e t created m w c config = (r, m', w') \<and> (\<forall>mt. r \<noteq> Ok mt) \<longrightarrow>
      m' = m \<and> mounts w' = mounts w \<and>
      (\<forall>q. \<not> prefix (od m c t) q \<and> (fs w q \<noteq> None \<or> \<not> prefix q (od m c t)) \<longrightarrow> fs w' q = fs w q) \<and>
      (((\<exists>er. r = Err (Wrapped ''failed to create overlay directory'' er)) \<or>
        r = Err ErrMountFailed \<or> r = Err ErrPermissionDenied) \<and>
       fault e (RemoveAll (od m c t)) = None \<and> (\<forall>q\<in>mounts w. \<not> prefix (od m c t) q)
         \<longrightarrow> (\<forall>q. prefix (od m c t) q \<longrightarrow> fs w' q = None)))"
proof (intro conjI allI impI; (elim conjE)?)
  assume "map_of (overlays m) c \<noteq> None"
  then show "CreateOverlay e t created m w c config = (Err ErrOverlayExists, m, w)"
    by (simp add: CreateOverlay_def)
next
  assume "map_of (overlays m) c = None" "os_Stat e w (SnapshotPath config) = Inl ENOENT"
  then show "CreateOverlay e t created m w c config = (Err ErrSnapshotNotFound, m, w)"
    by (simp add: CreateOverlay_def IsNotExist_def)
next
  assume "map_of (overlays m) c = None" "\<exists>x. os_Stat e w (SnapshotPath config) = Inr (File x)"
  then show "CreateOverlay e t created m w c config = (Err ErrSnapshotNotDirectory, m, w)"
    by (auto simp: CreateOverlay_def IsDir_def)
next
  fix r m' w'
  assume run: "CreateOverlay e t created m w c config = (r, m', w')" and nok: "\<forall>mt. r \<noteq> Ok mt"
  from CreateOverlay_failure[OF run nok] show "m' = m" "mounts w' = mounts w" by blast+
next
  fix r m' w' q
  assume run: "CreateOverlay e t created m w c config = (r, m', w')" and nok: "\<forall>mt. r \<noteq> Ok mt"
    and q: "\<not> prefix (od m c t) q" "fs w q \<noteq> None \<or> \<not> prefix q (od m c t)"
  from CreateOverlay_failure[OF run nok, of q] q show "fs w' q = fs w q"
    unfolding od_def by blast
next
  fix r m' w' q
  assume run: "CreateOverlay e t created m w c config = (r, m', w')" and nok: "\<forall>mt. r \<noteq> Ok mt"
    and r: "(\<exists>er. r = Err (Wrapped ''failed to create overlay directory'' er)) \<or>
        r = Err ErrMountFailed \<or> r = Err ErrPermissionDenied"
    and ok: "fault e (RemoveAll (od m c t)) = None" "\<forall>q\<in>mounts w. \<not> prefix (od m c t) q"
    and q: "prefix (od m c t) q"
  from CreateOverlay_failure[OF run nok, of q] r ok q show "fs w' q = None"
    unfolding od_def by blast
qed

theorem C5_create_overlay_errors_witness:
  "CreateOverlay env_ok 7 7 manager1 oworld1 cid0 config0 = (Err ErrOverlayExists, manager1, oworld1) \<and>
   CreateOverlay env_ok 7 7 manager0 oworld0 cid0 (config0\<lparr>SnapshotPath := [''nope'']\<rparr>)
     = (Err ErrSnapshotNotFound, manager0, oworld0) \<and>
   CreateOverlay env_ok 7 7 manager0 oworld0 cid0 (config0\<lparr>SnapshotPath := snap0 @ [''X'']\<rparr>)
     = (Err ErrSnapshotNotDirectory, manager0, oworld0) \<and>
   (\<exists>w'. CreateOverlay env_no_mount 7 7 manager0 oworld0 cid0 config0
            = (Err ErrPermissionDenied, manager0, w') \<and>
         mounts w' = {} \<and> fs w' odir0 = None \<and> fs w' (odir0 @ [''merged'']) = None \<and>
         fs w' base0 = Some Dir \<and> fs w' (snap0 @ [''X'']) = Some (File (Raw ''x'')))"
proof (intro conjI)
  have "map_of (overlays manager1) cid0 \<noteq> None" by (simp add: overlay_scenario_defs)
  with C5_create_overlay_errors[of manager1 cid0 env_ok 7 7 oworld1 config0]
  show "CreateOverlay env_ok 7 7 manager1 oworld1 cid0 config0 = (Err ErrOverlayExists, manager1, oworld1)"
    by blast
next
  have "map_of (overlays manager0) cid0 = None"
    "os_Stat env_ok oworld0 (SnapshotPath (config0\<lparr>SnapshotPath := [''nope'']\<rparr>)) = Inl ENOENT"
    by (simp_all add: overlay_scenario_defs os_Stat_def)
  with C5_create_overlay_errors[of manager0 cid0 env_ok 7 7 oworld0
      "config0\<lparr>SnapshotPath := [''nope'']\<rparr>"]
  show "CreateOverlay env_ok 7 7 manager0 oworld0 cid0 (config0\<lparr>SnapshotPath := [''nope'']\<rparr>)
     = (Err ErrSnapshotNotFound, manager0, oworld0)"
    by blast
next
  have "map_of (overlays manager0) cid0 = None"
    "os_Stat env_ok oworld0 (SnapshotPath (config0\<lparr>SnapshotPath := snap0 @ [''X'']\<rparr>))
       = Inr (File (Raw ''x''))"
    by (simp_all add: overlay_scenario_defs os_Stat_def)
  with C5_create_overlay_errors[of manager0 cid0 env_ok 7 7 oworld0
      "config0\<lparr>SnapshotPath := snap0 @ [''X'']\<rparr>"]
  show "CreateOverlay env_ok 7 7 manager0 oworld0 cid0 (config0\<lparr>SnapshotPath := snap0 @ [''X'']\<rparr>)
     = (Err ErrSnapshotNotDirectory, manager0, oworld0)"
    by blast
next
  obtain w' where run: "CreateOverlay env_no_mount 7 7 manager0 oworld0 cid0 config0
          = (Err ErrPermissionDenied, manager0, w')"
    using create_no_mount_returns by blast
  have h: "fault env_no_mount (RemoveAll odir0) = None" "\<forall>q\<in>mounts oworld0. \<not> prefix odir0 q"
    "mounts oworld0 = {}"
    "\<not> prefix odir0 base0" "fs oworld0 base0 = Some Dir"
    "\<not> prefix odir0 (snap0 @ [''X''])" "fs oworld0 (snap0 @ [''X'']) = Some (File (Raw ''x''))"
    by (simp_all add: overlay_scenario_defs)
  from C5_create_overlay_errors[of manager0 cid0 env_no_mount 7 7 oworld0 config0] run
  have c: "mounts w' = mounts oworld0"
    "\<forall>q. \<not> prefix odir0 q \<and> (fs oworld0 q \<noteq> None \<or> \<not> prefix q odir0) \<longrightarrow> fs w' q = fs oworld0 q"
    "fault env_no_mount (RemoveAll odir0) = None \<and> (\<forall>q\<in>mounts oworld0. \<not> prefix odir0 q)
       \<longrightarrow> (\<forall>q. prefix odir0 q \<longrightarrow> fs w' q = None)"
    unfolding odir0_eq by auto
  from c(3) h(1,2) have gone: "\<forall>q. prefix odir0 q \<longrightarrow> fs w' q = None" by blast
  have "fs w' odir0 = None" "fs w' (odir0 @ [''merged'']) = None"
    using gone by simp_all
  moreover have "fs w' base0 = Some Dir" using c(2) h(4,5) by simp
  moreover have "fs w' (snap0 @ [''X'']) = Some (File (Raw ''x''))" using c(2) h(6,7) by simp
  moreover have "mounts w' = {}" using c(1) h(3) by simp
  ultimately show "\<exists>w'. CreateOverlay env_no_mount 7 7 manager0 oworld0 cid0 config0
            = (Err ErrPermissionDenied, manager0, w') \<and>
         mounts w' = {} \<and> fs w' odir0 = None \<and> fs w' (odir0 @ [''merged'']) = None \<and>
         fs w' base0 = Some Dir \<and> fs w' (snap0 @ [''X'']) = Some (File (Raw ''x''))"
    using run by blast
qed

text \<open>
  Claim C5 as stated fails: when the mount is refused and the removal of the overlay's
  directory fails, \<open>CreateOverlay\<close> returns the mount error and the three directories
  it created are still there.
\<close>

theorem C5_counterexample:
  "fs oworld0 odir0 = None \<and>
   fst (CreateOverlay env_no_mount_no_remove 7 7 manager0 oworld0 cid0 config0)
     = Err ErrPermissionDenied \<and>
   fs (snd (snd (CreateOverlay env_no_mount_no_remove 7 7 manager0 oworld0 cid0 config0))) odir0
     = Some Dir \<and>
   fs (snd (snd (CreateOverlay env_no_mount_no_remove 7 7 manager0 oworld0 cid0 config0)))
     (odir0 @ [''merged'']) = Some Dir"
  by (simp add: overlay_eval overlay_scenario_defs)

text \<open>
  Claim C6. For a registered container: when the merged directory is mounted and the
  normal, the lazy and the forced unmount all fail, \<open>CleanupOverlay\<close> returns
  \<open>ErrUnmountFailed\<close> and leaves the manager and the world as they were, so that a
  later call starts from the same state. Whenever \<open>CleanupOverlay\<close> returns an error
  the registry is unchanged and still holds the container; the container is absent
  afterwards only if the call returned nil, and then \<open>cleanupMount\<close> succeeded.
\<close>

theorem C6_unmount_failure_keeps_entry:
  assumes "map_of (overlays m) c = Some mt"
  shows "(isMounted e w (MergedDir mt) \<and>
          fst (sys_Unmount e w (MergedDir mt) 0) \<noteq> None \<and>
          fst (sys_Unmount e w (MergedDir mt) MNT_DETACH) \<noteq> None \<and>
          fst (sys_Unmount e w (MergedDir mt) (MNT_FORCE + MNT_DETACH)) \<noteq> None
            \<longrightarrow> CleanupOverlay e m w c = (Some ErrUnmountFailed, m, w)) \<and>
         (\<forall>r m' w'. CleanupOverlay e m w c = (r, m', w') \<longrightarrow>
            (r \<noteq> None \<longrightarrow> m' = m \<and> GetOverlay m' c = Some mt) \<and>
            (GetOverlay m' c = None \<longrightarrow>
               r = None \<and> fst (cleanupMount e (BaseDir m) w mt) = None))"
proof (intro conjI impI allI)
  assume "isMounted e w (MergedDir mt) \<and>
          fst (sys_Unmount e w (MergedDir mt) 0) \<noteq> None \<and>
          fst (sys_Unmount e w (MergedDir mt) MNT_DETACH) \<noteq> None \<and>
          fst (sys_Unmount e w (MergedDir mt) (MNT_FORCE + MNT_DETACH)) \<noteq> None"
  then have "cleanupMount e (BaseDir m) w mt = (Some ErrUnmountFailed, w)"
    by (intro cleanupMount_all_unmounts_fail) simp_all
  with assms show "CleanupOverlay e m w c = (Some ErrUnmountFailed, m, w)"
    by (simp add: CleanupOverlay_def)
next
  fix r m' w'
  assume run: "CleanupOverlay e m w c = (r, m', w')" and "r \<noteq> None"
  with assms show "m' = m" by (cases rule: CleanupOverlay_cases) auto
  with assms show "GetOverlay m' c = Some mt" by (simp add: GetOverlay_def)
next
  fix r m' w'
  assume run: "CleanupOverlay e m w c = (r, m', w')" and gone: "GetOverlay m' c = None"
  from assms run have "r = None \<and> fst (cleanupMount e (BaseDir m) w mt) = None"
  proof (cases rule: CleanupOverlay_cases)
    case (failed er)
    with gone assms show ?thesis by (simp add: GetOverlay_def)
  next
    case (cleaned w1)
    then show ?thesis by simp
  qed
  then show "r = None" "fst (cleanupMount e (BaseDir m) w mt) = None" by simp_all
qed

theorem C6_unmount_failure_keeps_entry_witness:
  "map_of (overlays manager1) cid0 = Some mount0 \<and>
   isMounted env_busy oworld1 (MergedDir mount0) \<and>
   CleanupOverlay env_busy manager1 oworld1 cid0 = (Some ErrUnmountFailed, manager1, oworld1) \<and>
   GetOverlay manager1 cid0 = Some mount0"
proof -
  have h: "map_of (overlays manager1) cid0 = Some mount0"
    "isMounted env_busy oworld1 (MergedDir mount0)"
    "fst (sys_Unmount env_busy oworld1 (MergedDir mount0) 0) \<noteq> None"
    "fst (sys_Unmount env_busy oworld1 (MergedDir mount0) MNT_DETACH) \<noteq> None"
    "fst (sys_Unmount env_busy oworld1 (MergedDir mount0) (MNT_FORCE + MNT_DETACH)) \<noteq> None"
    by (simp_all add: overlay_scenario_defs isMounted_def sys_Unmount_def)
  from C6_unmount_failure_keeps_entry[OF h(1), of env_busy oworld1] h
  have run: "CleanupOverlay env_busy manager1 oworld1 cid0 = (Some ErrUnmountFailed, manager1, oworld1)"
    and "GetOverlay manager1 cid0 = Some mount0"
    by blast+
  with h show ?thesis by simp
qed

text \<open>
  What holds of \<open>CleanupOverlay\<close>. For a container that is not registered it returns
  nil and changes nothing. After a call that returned nil the container is not
  registered, so a second call (in any environment) returns nil and changes nothing.
  The tree of the overlay is gone after such a call when the kernel finds the
  directory under the path as \<open>cleanupDirs\<close> writes it (and the directory is neither
  the root nor the path of the state file).
\<close>

lemma CleanupOverlay_idempotent:
  "(map_of (overlays m) c = None \<longrightarrow> CleanupOverlay e m w c = (None, m, w)) \<and>
   (CleanupOverlay e m w c = (None, m', w') \<longrightarrow>
      GetOverlay m' c = None \<and> CleanupOverlay e2 m' w' c = (None, m', w') \<and>
      (\<forall>mt p. map_of (overlays m) c = Some mt \<and>
            walk w (BaseDir m) (split_slash (ID mt)) = Inr p \<and> p \<noteq> statePath m \<and> p \<noteq> []
            \<longrightarrow> (\<forall>q. prefix p q \<longrightarrow> fs w' q = None)))"
proof (intro conjI impI allI)
  assume "map_of (overlays m) c = None"
  then show "CleanupOverlay e m w c = (None, m, w)" by (simp add: CleanupOverlay_def)
next
  assume run: "CleanupOverlay e m w c = (None, m', w')"
  show g: "GetOverlay m' c = None"
  proof (cases "map_of (overlays m) c")
    case None
    with run show ?thesis by (simp add: CleanupOverlay_def GetOverlay_def)
  next
    case (Some mt)
    from Some run show ?thesis by (cases rule: CleanupOverlay_cases) simp_all
  qed
  then show "CleanupOverlay e2 m' w' c = (None, m', w')"
    by (simp add: CleanupOverlay_def GetOverlay_def)
next
  fix mt p q
  assume run: "CleanupOverlay e m w c = (None, m', w')"
    and h: "map_of (overlays m) c = Some mt \<and>
            walk w (BaseDir m) (split_slash (ID mt)) = Inr p \<and> p \<noteq> statePath m \<and> p \<noteq> []"
    and q: "prefix p q"
  from h have reg: "map_of (overlays m) c = Some mt"
    and wk: "walk w (BaseDir m) (split_slash (ID mt)) = Inr p" by simp_all
  from reg run show "fs w' q = None"
  proof (cases rule: CleanupOverlay_cases)
    case (failed er)
    then show ?thesis by simp
  next
    case (cleaned w1)
    have gone: "\<And>q. prefix p q \<Longrightarrow> fs w1 q = None"
      by (rule cleanupMount_frame(3)[OF cleaned(1) refl wk])
    have sp: "statePath (m\<lparr>overlays := AList.delete c (overlays m)\<rparr>) = statePath m"
      by simp
    from tree_gone_after_persist[of p w1
        "m\<lparr>overlays := AList.delete c (overlays m)\<rparr>" q e] gone h q sp cleaned(4)
    show ?thesis by simp
  qed
qed

text \<open>
  Claim C7 fails on the code for a container identifier with a \<open>..\<close> component.
  \<open>CreateOverlay\<close> for the container \<open>x/../yyyyyyy\<close> makes the directories of the
  overlay below \<open>filepath.Join(BaseDir, "x/../yyyyyyy_7")\<close>, which is
  \<open>/var/overlays/yyyyyyy_7\<close>, mounts the overlay and registers it with the identifier
  \<open>x/../yyyyyyy_7\<close>. \<open>CleanupOverlay\<close> of the same container unmounts the overlay
  and hands \<open>/var/overlays/x/../yyyyyyy_7\<close> to \<open>os.RemoveAll\<close>: there is no
  \<open>/var/overlays/x\<close>, the kernel does not find the path, \<open>os.RemoveAll\<close> returns nil
  and \<open>CleanupOverlay\<close> returns nil with the container no longer registered, and
  the tree that \<open>CreateOverlay\<close> made is still there.
\<close>

theorem C7_tree_left_behind:
  "fst (CreateOverlay env_ok 7 7 manager0 oworld0 cid_dots config0) = Ok mount_dots \<and>
   fst (snd (CreateOverlay env_ok 7 7 manager0 oworld0 cid_dots config0)) = manager_dots \<and>
   fs (snd (snd (CreateOverlay env_ok 7 7 manager0 oworld0 cid_dots config0))) odir_dots = Some Dir \<and>
   fst (CleanupOverlay env_ok manager_dots
          (snd (snd (CreateOverlay env_ok 7 7 manager0 oworld0 cid_dots config0))) cid_dots) = None \<and>
   GetOverlay (fst (snd (CleanupOverlay env_ok manager_dots
          (snd (snd (CreateOverlay env_ok 7 7 manager0 oworld0 cid_dots config0))) cid_dots))) cid_dots
     = None \<and>
   fs (snd (snd (CleanupOverlay env_ok manager_dots
          (snd (snd (CreateOverlay env_ok 7 7 manager0 oworld0 cid_dots config0))) cid_dots))) odir_dots
     = Some Dir \<and>
   fs (snd (snd (CleanupOverlay env_ok manager_dots
          (snd (snd (CreateOverlay env_ok 7 7 manager0 oworld0 cid_dots config0))) cid_dots)))
      (odir_dots @ [''upper''])
     = Some Dir \<and>
   mounts (snd (snd (CleanupOverlay env_ok manager_dots
          (snd (snd (CreateOverlay env_ok 7 7 manager0 oworld0 cid_dots config0))) cid_dots))) = {}"
  by (simp add: overlay_eval overlay_scenario_defs)

text \<open>
  Claim C8 (state file follows the registry).  The claim says that after every change of the
  registry the file \<^verbatim>\<open>state.json\<close> holds the registry, and is absent when the registry is
  empty.  The code logs and drops every failure of \<^const>\<open>persistState\<close>, and the recovery pass
  removes the file without looking at the registry, so the claim holds only under the
  hypotheses below: the state file can be written and removed (\<^const>\<open>state_file_writable\<close>);
  then a successful \<^const>\<open>CreateOverlay\<close>, a \<^const>\<open>CleanupOverlay\<close> that removed an entry and
  \<^const>\<open>CleanupAll\<close> leave the file equal to the registry (absent when it is empty), and a
  \<^const>\<open>RecoverOrphanedMounts\<close> that read the file leaves the registry as it was and the file
  absent, so that the two agree exactly when the registry is empty.
\<close>

theorem C8_state_file_follows_registry:
  assumes "state_file_writable e m w"
  shows "(CreateOverlay e t created m w c config = (Ok mt, m', w') \<and>
          \<not> prefix (statePath m) (overlayDir_of (BaseDir m) mt) \<longrightarrow> persisted m' w') \<and>
         (map_of (overlays m) c = Some mt \<and> CleanupOverlay e m w c = (None, m', w') \<and>
          \<not> prefix (overlayDir_of (BaseDir m) mt) (statePath m) \<longrightarrow> persisted m' w') \<and>
         (CleanupAll e m w = (r, m', w') \<longrightarrow> overlays m' = [] \<and> persisted m' w') \<and>
         (RecoverOrphanedMounts e m w = (Ok failed, m', w') \<and> fault e (ReadFile (statePath m)) = None
            \<longrightarrow> m' = m \<and> fs w' (statePath m) = None \<and> (persisted m' w' \<longleftrightarrow> overlays m = []))"
proof (intro conjI impI; (elim conjE)?)
  assume "CreateOverlay e t created m w c config = (Ok mt, m', w')"
    "\<not> prefix (statePath m) (overlayDir_of (BaseDir m) mt)"
  with assms show "persisted m' w'" by (rule CreateOverlay_persists)
next
  assume "map_of (overlays m) c = Some mt" "CleanupOverlay e m w c = (None, m', w')"
    "\<not> prefix (overlayDir_of (BaseDir m) mt) (statePath m)"
  with assms show "persisted m' w'" by (rule CleanupOverlay_persists)
next
  assume run: "CleanupAll e m w = (r, m', w')"
  from CleanupAll_persists[OF assms run] show "overlays m' = []" "persisted m' w'" by simp_all
next
  assume run: "RecoverOrphanedMounts e m w = (Ok failed, m', w')"
    and rd: "fault e (ReadFile (statePath m)) = None"
  from run show m': "m' = m" by (cases rule: RecoverOrphanedMounts_cases) simp_all
  from Recover_state_file_gone[OF run rd] assms
  show gone: "fs w' (statePath m) = None" by (simp add: state_file_writable_def)
  from m' gone show "persisted m' w' \<longleftrightarrow> overlays m = []"
    by (auto simp: persisted_def)
qed


theorem C8_state_file_follows_registry_witness:
  "(\<exists>w'. CreateOverlay env_ok 7 7 manager0 oworld0 cid0 config0 = (Ok mount0, manager1, w') \<and>
         fs w' (base0 @ [''state.json'']) = Some (File (StateJSON [(cid0, Some mount0)]))) \<and>
   (\<exists>w'. CleanupOverlay env_ok manager1 oworld1 cid0 = (None, manager0, w') \<and>
         fs w' (base0 @ [''state.json'']) = None) \<and>
   (\<exists>w'. CleanupAll env_ok manager1 oworld1 = (None, manager0, w') \<and>
         fs w' (base0 @ [''state.json'']) = None) \<and>
   (\<exists>w'. RecoverOrphanedMounts env_ok manager0 oworld1 = (Ok [], manager0, w') \<and>
         fs w' (base0 @ [''state.json'']) = None)"
proof (intro conjI)
  obtain w' where run: "CreateOverlay env_ok 7 7 manager0 oworld0 cid0 config0 = (Ok mount0, manager1, w')"
    using create_ok_state by blast
  have h: "state_file_writable env_ok manager0 oworld0"
    "\<not> prefix (statePath manager0) (overlayDir_of (BaseDir manager0) mount0)"
    by (simp_all add: state_file_writable_def is_dir_def overlay_scenario_defs overlayDir_of_def
        Join_at_def clean_step_def)
  from C8_state_file_follows_registry[OF h(1), of 7 7 cid0 config0 mount0 manager1 w'] run h(2)
  have "persisted manager1 w'" by blast
  then have "fs w' (base0 @ [''state.json'']) = Some (File (StateJSON [(cid0, Some mount0)]))"
    by (simp add: persisted_def json_Marshal_def manager1_def)
  with run show "\<exists>w'. CreateOverlay env_ok 7 7 manager0 oworld0 cid0 config0 = (Ok mount0, manager1, w') \<and>
         fs w' (base0 @ [''state.json'']) = Some (File (StateJSON [(cid0, Some mount0)]))" by blast
next
  obtain w' where run: "CleanupOverlay env_ok manager1 oworld1 cid0 = (None, manager0, w')"
    using cleanup_ok_returns by blast
  have h: "state_file_writable env_ok manager1 oworld1"
    "map_of (overlays manager1) cid0 = Some mount0"
    "\<not> prefix (overlayDir_of (BaseDir manager1) mount0) (statePath manager1)"
    by (simp_all add: state_file_writable_def is_dir_def overlay_scenario_defs overlayDir_of_def
        Join_at_def clean_step_def)
  from C8_state_file_follows_registry[OF h(1), of _ _ cid0 _ mount0 manager0 w'] run h(2,3)
  have "persisted manager0 w'" by blast
  then have "fs w' (base0 @ [''state.json'']) = None"
    by (simp add: persisted_def manager0_def)
  with run show "\<exists>w'. CleanupOverlay env_ok manager1 oworld1 cid0 = (None, manager0, w') \<and>
         fs w' (base0 @ [''state.json'']) = None" by blast
next
  obtain w' where run: "CleanupAll env_ok manager1 oworld1 = (None, manager0, w')"
    using cleanup_all_returns by blast
  have h: "state_file_writable env_ok manager1 oworld1"
    by (simp_all add: state_file_writable_def is_dir_def overlay_scenario_defs)
  from C8_state_file_follows_registry[OF h(1), of _ _ _ _ _ manager0 w' None] run
  have "persisted manager0 w'" by blast
  then have "fs w' (base0 @ [''state.json'']) = None"
    by (simp add: persisted_def manager0_def)
  with run show "\<exists>w'. CleanupAll env_ok manager1 oworld1 = (None, manager0, w') \<and>
         fs w' (base0 @ [''state.json'']) = None" by blast
next
  obtain w' where run: "RecoverOrphanedMounts env_ok manager0 oworld1 = (Ok [], manager0, w')"
    using recover_ok_returns by blast
  have h: "state_file_writable env_ok manager0 oworld1"
    "fault env_ok (ReadFile (statePath manager0)) = None"
    by (simp_all add: state_file_writable_def is_dir_def overlay_scenario_defs)
  from C8_state_file_follows_registry[OF h(1), of _ _ _ _ _ manager0 w' _ "[]"] run h(2)
  have "fs w' (statePath manager0) = None" by blast
  then have "fs w' (base0 @ [''state.json'']) = None" by (simp add: manager0_def)
  with run show "\<exists>w'. RecoverOrphanedMounts env_ok manager0 oworld1 = (Ok [], manager0, w') \<and>
         fs w' (base0 @ [''state.json'']) = None" by blast
qed

theorem C8_counterexample:
  "fst (CreateOverlay env_state_unwritable 7 7 manager0 oworld0 cid0 config0) = Ok mount0 \<and>
   overlays (fst (snd (CreateOverlay env_state_unwritable 7 7 manager0 oworld0 cid0 config0)))
     = [(cid0, mount0)] \<and>
   fs (snd (snd (CreateOverlay env_state_unwritable 7 7 manager0 oworld0 cid0 config0)))
     (base0 @ [''state.json'']) = None \<and>
   \<not> persisted (fst (snd (CreateOverlay env_state_unwritable 7 7 manager0 oworld0 cid0 config0)))
        (snd (snd (CreateOverlay env_state_unwritable 7 7 manager0 oworld0 cid0 config0))) \<and>
   fst (RecoverOrphanedMounts env_ok manager1 oworld1) = Ok [] \<and>
   overlays (fst (snd (RecoverOrphanedMounts env_ok manager1 oworld1))) = [(cid0, mount0)] \<and>
   \<not> persisted (fst (snd (RecoverOrphanedMounts env_ok manager1 oworld1)))
        (snd (snd (RecoverOrphanedMounts env_ok manager1 oworld1)))"
  by (simp add: overlay_eval overlay_scenario_defs persisted_def)




text \<open>
  Claim C10. When the container identifier has fewer than 12 bytes, the container is
  not registered and the snapshot path is a directory, \<open>CreateOverlay\<close> panics at
  \<open>containerID[:12]\<close>: it returns no error, and the manager and the world are as they
  were.
\<close>

theorem C10_short_container_id_panics:
  assumes "length containerID < 12"
      and "map_of (overlays m) containerID = None"
      and "os_Stat e w (SnapshotPath config) = Inr info" and "IsDir info"
  shows "CreateOverlay e unix_nano created m w containerID config = (Panic, m, w)"
  using assms by (simp add: CreateOverlay_def)

theorem C10_short_container_id_panics_witness:
  "length ''abc'' < (12::nat) \<and> map_of (overlays manager0) ''abc'' = None \<and>
   os_Stat env_ok oworld0 (SnapshotPath config0) = Inr Dir \<and> IsDir (Dir :: state_content node) \<and>
   CreateOverlay env_ok 7 7 manager0 oworld0 ''abc'' config0 = (Panic, manager0, oworld0)"
proof -
  have h: "length ''abc'' < (12::nat)" "map_of (overlays manager0) ''abc'' = None"
    "os_Stat env_ok oworld0 (SnapshotPath config0) = Inr Dir" "IsDir (Dir :: state_content node)"
    by (simp_all add: overlay_scenario_defs os_Stat_def IsDir_def)
  from C10_short_container_id_panics[OF h] h show ?thesis by simp
qed

end
